theory Spec2Isabelle
  imports Main "HOL-Library.AList"
begin

section \<open>NodeNetworkConfigurationPolicy: data model\<close>

text \<open>
  The embedding follows \<^verbatim>\<open>src/resources/node_network_configuration_policy.py\<close>.
  Python exceptions are values of \<open>error\<close>; a method that may raise returns
  \<open>(error + 'a) \<times> nncp\<close>: the outcome and the object after the call (attribute writes
  made before a raise stay visible, as in Python).
\<close>

datatype error =
    ConflictError
  | TimeoutExpiredError
  | NNCPConfigurationFailed string
  | AttributeError
  | TypeError
  | KeyError
  | ValueError
  | StopIteration
  | OtherError string

text \<open>The string constants of the nested classes \<^verbatim>\<open>Interface.State\<close> and \<^verbatim>\<open>Conditions\<close>.\<close>

definition State_UP :: string where "State_UP = ''up''"
definition State_DOWN :: string where "State_DOWN = ''down''"
definition State_ABSENT :: string where "State_ABSENT = ''absent''"

definition Type_FAILING :: string where "Type_FAILING = ''Failing''"
definition Type_AVAILABLE :: string where "Type_AVAILABLE = ''Available''"
definition Type_PROGRESSING :: string where "Type_PROGRESSING = ''Progressing''"
definition Type_MATCHING :: string where "Type_MATCHING = ''Matching''"

definition Reason_SUCCESS :: string where "Reason_SUCCESS = ''SuccessfullyConfigured''"
definition Reason_FAILED :: string where "Reason_FAILED = ''FailedToConfigure''"

text \<open>
  Interface entries are Python dicts. The keys the source reads or writes are fields; a
  key that may be missing is an \<open>option\<close>. \<^verbatim>\<open>"ipv6": {"enabled": b}\<close> is \<open>Some b\<close>.
\<close>

record ip_address =
  ip :: string
  prefix_length :: int

record ipv4 =
  enabled :: bool
  dhcp :: bool
  address :: "ip_address list option"

record interface =
  if_name :: string
  if_type :: "string option"
  if_state :: "string option"
  if_mtu :: "int option"
  if_ipv4 :: "ipv4 option"
  if_ipv6 :: "bool option"

text \<open>
  An interface as a node reports it (\<^verbatim>\<open>status.currentState.interfaces\<close>): the source reads
  \<^verbatim>\<open>interface["name"]\<close> and \<^verbatim>\<open>interface["ipv4"][k]\<close> for \<^verbatim>\<open>k\<close> in \<^verbatim>\<open>("dhcp", "enabled")\<close>;
  each of the latter raises \<^verbatim>\<open>KeyError\<close> when missing.
\<close>

record obs_ipv4 =
  o_dhcp :: "bool option"
  o_enabled :: "bool option"

record obs_interface =
  o_name :: string
  o_ipv4 :: "obs_ipv4 option"

record condition =
  c_type :: string
  c_reason :: string

datatype pod = Pod (node_name: string)

text \<open>
  The document \<^verbatim>\<open>to_dict\<close> returns: \<open>base\<close> stands for the body of \<^verbatim>\<open>Resource._base_body()\<close>
  (built from the resource's name), \<open>spec_desiredState\<close> for
  \<^verbatim>\<open>res["spec"]["desiredState"]["interfaces"]\<close> and \<open>spec_nodeSelector\<close> for
  \<^verbatim>\<open>res["spec"]["nodeSelector"]\<close> (\<open>None\<close>: key not set).
\<close>

record doc =
  base :: string
  spec_desiredState :: "interface list"
  spec_nodeSelector :: "(string \<times> string) list option"

text \<open>
  What the object does to the outside, in order. Every call of a collaborator appends its
  event; the collaborator's answer is a function of the events so far (see \<open>env\<close>).
\<close>

datatype event =
    Enter
  | Update doc
  | Delete
  | GetConditions
  | GetCurrentState string
  | WaitUntilDeleted string string
  | WaitUntilUp string string
  | Execute string "string list"
  | Sleep nat
  | LogInfo string
  | LogError string
  | LogException error

text \<open>
  The object. Interface dicts are shared by reference between \<^verbatim>\<open>self.iface\<close>,
  \<^verbatim>\<open>self.ifaces\<close> and \<^verbatim>\<open>self.desired_state["interfaces"]\<close>, and the source mutates them in
  place, so they live in \<open>heap\<close> and the three attributes hold addresses (indices into
  \<open>heap\<close>). Dicts whose iteration order the source depends on are association lists in
  insertion order (\<open>AList.update\<close> keeps the place of an existing key and appends a new
  one, as a Python dict does). \<open>priv_node_selector = None\<close> means that the attribute
  \<^verbatim>\<open>_node_selector\<close> was never assigned. \<open>trace\<close> is the history of external calls.
\<close>

record nncp =
  name :: string
  teardown :: bool
  desired_state :: "nat list"
  worker_pods :: "pod list option"
  mtu :: "int option"
  mtu_dict :: "(string \<times> string) list"
  ports :: "string list"
  iface :: "nat option"
  ifaces :: "nat list"
  node_active_nics :: "string list"
  ipv4_enable :: bool
  priv_ipv4_dhcp :: bool
  ipv4_addresses :: "ip_address list"
  ipv6_enable :: bool
  ipv4_iface_state :: "(string \<times> (string \<times> ipv4) list) list"
  node_selector :: "string option"
  priv_node_selector :: "(string \<times> string) list option"
  heap :: "interface list"
  trace :: "event list"

text \<open>
  The collaborators that are not part of the class: the \<^verbatim>\<open>Resource\<close> base class
  (\<^verbatim>\<open>__enter__\<close>, \<^verbatim>\<open>update\<close>, \<^verbatim>\<open>delete\<close>, \<^verbatim>\<open>instance\<close>), \<^verbatim>\<open>NodeNetworkState\<close>, \<^verbatim>\<open>pod.execute\<close>
  and the built-ins \<^verbatim>\<open>str.strip\<close> and \<^verbatim>\<open>int\<close>. They are parameters. A remote call answers
  from the history of events up to and including the call itself, so any deterministic
  environment is an instance. \<^verbatim>\<open>super().__enter__()\<close> may change the object and is a
  state transformer.
\<close>

record env =
  ext_super_enter :: "nncp \<Rightarrow> (error + unit) \<times> nncp"
  ext_update :: "event list \<Rightarrow> error + unit"
  ext_delete :: "event list \<Rightarrow> error + unit"
  ext_conditions :: "event list \<Rightarrow> error + condition list option"
  ext_current_state :: "event list \<Rightarrow> error + obs_interface list"
  ext_wait_until_deleted :: "event list \<Rightarrow> error + unit"
  ext_wait_until_up :: "event list \<Rightarrow> error + unit"
  ext_execute :: "event list \<Rightarrow> error + string"
  py_strip :: "string \<Rightarrow> string"
  py_int :: "string \<Rightarrow> int option"

definition call :: "event \<Rightarrow> (event list \<Rightarrow> error + 'a) \<Rightarrow> nncp \<Rightarrow> (error + 'a) \<times> nncp" where
  "call ev oracle s = (let h = trace s @ [ev] in (oracle h, s\<lparr>trace := h\<rparr>))"

definition log :: "event \<Rightarrow> nncp \<Rightarrow> nncp" where
  "log ev s = s\<lparr>trace := trace s @ [ev]\<rparr>"

text \<open>A \<^verbatim>\<open>for\<close> loop over a list that its body does not change; a raise ends it.\<close>

primrec for_each ::
  "('a \<Rightarrow> nncp \<Rightarrow> (error + unit) \<times> nncp) \<Rightarrow> 'a list \<Rightarrow> nncp \<Rightarrow> (error + unit) \<times> nncp" where
  "for_each body [] s = (Inr (), s)"
| "for_each body (x # xs) s =
     (case body x s of
        (Inl e, s1) \<Rightarrow> (Inl e, s1)
      | (Inr u, s1) \<Rightarrow> for_each body xs s1)"

section \<open>Constructor\<close>

record nncp_args =
  arg_name :: string
  arg_worker_pods :: "pod list option"
  arg_node_selector :: "string option"
  arg_teardown :: bool
  arg_mtu :: "int option"
  arg_ports :: "string list option"
  arg_ipv4_enable :: bool
  arg_ipv4_dhcp :: bool
  arg_ipv4_addresses :: "ip_address list option"
  arg_ipv6_enable :: bool
  arg_node_active_nics :: "string list option"

text \<open>Python's \<^verbatim>\<open>x or []\<close> for a list or \<^verbatim>\<open>None\<close>.\<close>

definition or_empty :: "'a list option \<Rightarrow> 'a list" where
  "or_empty x = (case x of None \<Rightarrow> [] | Some xs \<Rightarrow> xs)"

text \<open>Truth value of an integer or \<^verbatim>\<open>None\<close>: \<^verbatim>\<open>None\<close> and \<^verbatim>\<open>0\<close> are false.\<close>

definition truthy_int :: "int option \<Rightarrow> bool" where
  "truthy_int x = (case x of None \<Rightarrow> False | Some v \<Rightarrow> v \<noteq> 0)"

text \<open>
  \<^verbatim>\<open>__init__\<close>. \<^verbatim>\<open>super().__init__\<close> stores \<^verbatim>\<open>name\<close> and \<^verbatim>\<open>teardown\<close>. \<^verbatim>\<open>if self.node_selector\<close>
  is false for \<^verbatim>\<open>None\<close> and for the empty string, and the \<^verbatim>\<open>else\<close> belongs to it: when a
  selector is given and no pod matches, the loop ends without assigning \<^verbatim>\<open>_node_selector\<close>.
  Iterating \<^verbatim>\<open>worker_pods = None\<close> raises \<^verbatim>\<open>TypeError\<close>.
\<close>

definition nncp_init :: "nncp_args \<Rightarrow> error + nncp" where
  "nncp_init a =
     (let s = \<lparr> name = arg_name a, teardown = arg_teardown a, desired_state = [],
                worker_pods = arg_worker_pods a, mtu = arg_mtu a, mtu_dict = [],
                ports = or_empty (arg_ports a), iface = None, ifaces = [],
                node_active_nics = or_empty (arg_node_active_nics a),
                ipv4_enable = arg_ipv4_enable a, priv_ipv4_dhcp = arg_ipv4_dhcp a,
                ipv4_addresses = or_empty (arg_ipv4_addresses a),
                ipv6_enable = arg_ipv6_enable a, ipv4_iface_state = [],
                node_selector = arg_node_selector a, priv_node_selector = None,
                heap = [], trace = [] \<rparr>;
          role = s\<lparr>priv_node_selector := Some [(''node-role.kubernetes.io/worker'', '''')]\<rparr>
      in case node_selector s of
           None \<Rightarrow> Inr role
         | Some ns \<Rightarrow>
             if ns = [] then Inr role
             else
               (case worker_pods s of
                  None \<Rightarrow> Inl TypeError
                | Some pods \<Rightarrow>
                    (case find (\<lambda>pod. node_name pod = ns) pods of
                       Some pod \<Rightarrow>
                         Inr (s\<lparr>worker_pods := Some [pod],
                                priv_node_selector := Some [(''kubernetes.io/hostname'', ns)]\<rparr>)
                     | None \<Rightarrow> Inr s)))"

section \<open>Desired-state builder\<close>

text \<open>\<^verbatim>\<open>set_interface\<close>: drop the entries of the same name, then append the reference.\<close>

definition set_interface :: "nat \<Rightarrow> nncp \<Rightarrow> nncp" where
  "set_interface interface s =
     (let interfaces =
            filter (\<lambda>i. \<not> (if_name (heap s ! i) = if_name (heap s ! interface)))
              (desired_state s)
      in s\<lparr>desired_state := interfaces @ [interface]\<rparr>)"

text \<open>
  \<^verbatim>\<open>to_dict\<close>. \<^verbatim>\<open>res["spec"]["desiredState"]\<close> is the object \<^verbatim>\<open>self.desired_state\<close> itself, so
  the document shows the interface list as it is after \<^verbatim>\<open>set_interface\<close>; the model builds
  the document last, from the final state. Reading the unassigned \<^verbatim>\<open>_node_selector\<close>
  raises \<^verbatim>\<open>AttributeError\<close> before anything is changed; \<^verbatim>\<open>self.iface["ipv4"] = ...\<close> on
  \<^verbatim>\<open>self.iface = None\<close> raises \<^verbatim>\<open>TypeError\<close>. \<^verbatim>\<open>self.iface not in self.ifaces\<close> compares
  dicts by value. \<open>write_protocols\<close> is lines 109 to 113 (the writes of \<^verbatim>\<open>"ipv4"\<close> and
  \<^verbatim>\<open>"ipv6"\<close> into the object \<^verbatim>\<open>self.iface\<close>), \<open>remember_iface\<close> lines 116 and 117, \<open>document\<close>
  the value of \<^verbatim>\<open>res\<close> at the \<^verbatim>\<open>return\<close>.
\<close>

definition write_protocols :: "nat \<Rightarrow> nncp \<Rightarrow> nncp" where
  "write_protocols a s =
     (let v4 = \<lparr>enabled = ipv4_enable s, dhcp = priv_ipv4_dhcp s, address = None\<rparr>;
          v4' = (if ipv4_addresses s \<noteq> [] then v4\<lparr>address := Some (ipv4_addresses s)\<rparr> else v4)
      in s\<lparr>heap := (heap s)[a := (heap s ! a)\<lparr>if_ipv4 := Some v4',
                                                 if_ipv6 := Some (ipv6_enable s)\<rparr>]\<rparr>)"

definition remember_iface :: "nat \<Rightarrow> nncp \<Rightarrow> nncp" where
  "remember_iface a s =
     (if heap s ! a \<notin> set (map (\<lambda>i. heap s ! i) (ifaces s))
      then s\<lparr>ifaces := ifaces s @ [a]\<rparr> else s)"

definition document :: "(string \<times> string) list \<Rightarrow> nncp \<Rightarrow> doc" where
  "document sel s =
     \<lparr>base = name s,
      spec_desiredState = map (\<lambda>i. heap s ! i) (desired_state s),
      spec_nodeSelector = (if sel \<noteq> [] then Some sel else None)\<rparr>"

definition to_dict :: "nncp \<Rightarrow> (error + doc) \<times> nncp" where
  "to_dict s =
     (case priv_node_selector s of
        None \<Rightarrow> (Inl AttributeError, s)
      | Some sel \<Rightarrow>
          (case iface s of
             None \<Rightarrow> (Inl TypeError, s)
           | Some a \<Rightarrow>
               (let s1 = write_protocols a s;
                    s2 = set_interface a s1;
                    s3 = remember_iface a s2
                in (Inr (document sel s3), s3))))"

section \<open>Polling utility\<close>

text \<open>
  Modelled from the spec: the bounded polling utility \<^verbatim>\<open>TimeoutSampler\<close> of
  \<^verbatim>\<open>resources.utils\<close>, which is not among the sources. The spec: "given a timeout, sleep
  interval, and a zero-argument probe (optionally restricted to retry only on specific
  error classes), produces a sequence of samples until timeout, raising a timeout error if
  exhausted"; "each poll blocks the calling thread for a fixed interval between samples".
  Time is logical: a probe takes no time, a sleep takes \<open>sleep\<close> units, so the polls are at
  \<open>0, sleep, 2 * sleep, ...\<close> and poll \<open>K + 1\<close> happens when \<open>K * sleep < timeout\<close>. An error
  of the probe that is in \<open>exceptions\<close> is swallowed and the probe retried; without a
  restriction every error is retried. The consumer's loop body answers each sample with a
  \<open>step\<close>: go on, return or raise. With \<open>sleep = 0\<close> the logical clock would stand still;
  the model then raises the timeout after the first poll (the source only passes
  \<open>sleep = 1\<close>).
\<close>

datatype 'r step = Continue | Return 'r | Raise error

definition sample_once ::
  "(error \<Rightarrow> bool) \<Rightarrow> (nncp \<Rightarrow> (error + 'a) \<times> nncp) \<Rightarrow> ('a \<Rightarrow> nncp \<Rightarrow> 'r step \<times> nncp) \<Rightarrow>
   nncp \<Rightarrow> (error + 'r) option \<times> nncp" where
  "sample_once exceptions func body s =
     (case func s of
        (Inl e, s1) \<Rightarrow> (if exceptions e then None else Some (Inl e), s1)
      | (Inr sample, s1) \<Rightarrow>
          (case body sample s1 of
             (Continue, s2) \<Rightarrow> (None, s2)
           | (Return r, s2) \<Rightarrow> (Some (Inr r), s2)
           | (Raise e, s2) \<Rightarrow> (Some (Inl e), s2)))"

function TimeoutSampler ::
  "nat \<Rightarrow> nat \<Rightarrow> (error \<Rightarrow> bool) \<Rightarrow> (nncp \<Rightarrow> (error + 'a) \<times> nncp) \<Rightarrow>
   ('a \<Rightarrow> nncp \<Rightarrow> 'r step \<times> nncp) \<Rightarrow> nat \<Rightarrow> nncp \<Rightarrow> (error + 'r) \<times> nncp" where
  "TimeoutSampler timeout sleep exceptions func body elapsed s =
     (case sample_once exceptions func body s of
        (Some r, s1) \<Rightarrow> (r, s1)
      | (None, s1) \<Rightarrow>
          (let s2 = log (Sleep sleep) s1 in
           if sleep = 0 \<or> timeout \<le> elapsed + sleep then (Inl TimeoutExpiredError, s2)
           else TimeoutSampler timeout sleep exceptions func body (elapsed + sleep) s2))"
  by pat_completeness auto
termination
  by (relation "measure (\<lambda>(timeout, sleep, exceptions, func, body, elapsed, s). timeout - elapsed)")
     auto

declare TimeoutSampler.simps [simp del]

definition any_exception :: "error \<Rightarrow> bool" where
  "any_exception e = True"

section \<open>Applier\<close>

text \<open>
  \<^verbatim>\<open>apply\<close>: \<^verbatim>\<open>for _sample in samples: return\<close> returns on the first sample, that is on the
  first call of \<^verbatim>\<open>self.update(resource_dict=resource)\<close> that does not raise.
\<close>

definition nncp_apply :: "env \<Rightarrow> nncp \<Rightarrow> (error + unit) \<times> nncp" where
  "nncp_apply env s =
     (case to_dict s of
        (Inl e, s1) \<Rightarrow> (Inl e, s1)
      | (Inr resource, s1) \<Rightarrow>
          TimeoutSampler 3 1 (\<lambda>e. e = ConflictError)
            (call (Update resource) (ext_update env))
            (\<lambda>sample s'. (Return (), s')) 0 s1)"

section \<open>Status watcher\<close>

text \<open>
  \<^verbatim>\<open>status\<close>: the reason of the first condition of type Available, \<^verbatim>\<open>None\<close> when there is
  none. Iterating \<^verbatim>\<open>conditions = None\<close> raises \<^verbatim>\<open>TypeError\<close>.
\<close>

definition status :: "env \<Rightarrow> nncp \<Rightarrow> (error + string option) \<times> nncp" where
  "status env s =
     (case call GetConditions (ext_conditions env) s of
        (Inl e, s1) \<Rightarrow> (Inl e, s1)
      | (Inr None, s1) \<Rightarrow> (Inl TypeError, s1)
      | (Inr (Some conditions), s1) \<Rightarrow>
          (Inr (map_option c_reason (find (\<lambda>c. c_type c = Type_AVAILABLE) conditions)), s1))"

text \<open>\<^verbatim>\<open>if sample\<close> on the conditions: \<^verbatim>\<open>None\<close> and the empty list are false.\<close>

definition truthy_list :: "'a list option \<Rightarrow> bool" where
  "truthy_list x = (case x of None \<Rightarrow> False | Some xs \<Rightarrow> xs \<noteq> [])"

definition wait_for_conditions :: "env \<Rightarrow> nncp \<Rightarrow> (error + unit) \<times> nncp" where
  "wait_for_conditions env s =
     TimeoutSampler 30 1 any_exception (call GetConditions (ext_conditions env))
       (\<lambda>sample s'. (if truthy_list sample then Return () else Continue, s')) 0 s"

definition status_body :: "string option \<Rightarrow> nncp \<Rightarrow> string option step \<times> nncp" where
  "status_body sample s =
     (if sample = Some Reason_SUCCESS then
        (Return sample, log (LogInfo ''NNCP configured Successfully'') s)
      else if sample = Some Reason_FAILED then
        (Raise (NNCPConfigurationFailed (''Reason: '' @ Reason_FAILED)), s)
      else (Continue, s))"

definition is_NNCPConfigurationFailed :: "error \<Rightarrow> bool" where
  "is_NNCPConfigurationFailed e = (case e of NNCPConfigurationFailed m \<Rightarrow> True | _ \<Rightarrow> False)"

definition wait_for_status_success :: "env \<Rightarrow> nncp \<Rightarrow> (error + string option) \<times> nncp" where
  "wait_for_status_success env s =
     (case wait_for_conditions env s of
        (Inl e, s1) \<Rightarrow> (Inl e, s1)
      | (Inr u, s1) \<Rightarrow>
          (case TimeoutSampler 30 1 any_exception (status env) status_body 0 s1 of
             (Inl e, s2) \<Rightarrow>
               (if e = TimeoutExpiredError \<or> is_NNCPConfigurationFailed e
                then (Inl e, log (LogError ''Unable to configure NNCP for node'') s2)
                else (Inl e, s2))
           | (Inr sample, s2) \<Rightarrow> (Inr sample, s2)))"

text \<open>
  \<^verbatim>\<open>validate_create\<close> and \<^verbatim>\<open>wait_for_interface_deleted\<close>: the waits of \<^verbatim>\<open>NodeNetworkState\<close>
  are external calls; iterating \<^verbatim>\<open>worker_pods = None\<close> raises \<^verbatim>\<open>TypeError\<close>.
\<close>

definition validate_create :: "env \<Rightarrow> nncp \<Rightarrow> (error + unit) \<times> nncp" where
  "validate_create env s =
     (case worker_pods s of
        None \<Rightarrow> (Inl TypeError, s)
      | Some pods \<Rightarrow>
          for_each (\<lambda>pod s1.
            for_each (\<lambda>bridge s2.
              call (WaitUntilUp (node_name pod) (if_name (heap s2 ! bridge)))
                (ext_wait_until_up env) s2) (ifaces s1) s1) pods s)"

definition wait_for_interface_deleted :: "env \<Rightarrow> nncp \<Rightarrow> (error + unit) \<times> nncp" where
  "wait_for_interface_deleted env s =
     (case worker_pods s of
        None \<Rightarrow> (Inl TypeError, s)
      | Some pods \<Rightarrow>
          for_each (\<lambda>pod s1.
            for_each (\<lambda>i s2.
              call (WaitUntilDeleted (node_name pod) (if_name (heap s2 ! i)))
                (ext_wait_until_deleted env) s2) (ifaces s1) s1) pods s)"

section \<open>DHCP backup\<close>

text \<open>\<^verbatim>\<open>{k: interface["ipv4"][k] for k in ("dhcp", "enabled")}\<close>\<close>

definition obs_flags :: "obs_interface \<Rightarrow> error + ipv4" where
  "obs_flags interface =
     (case o_ipv4 interface of
        None \<Rightarrow> Inl KeyError
      | Some v \<Rightarrow>
          (case o_dhcp v of
             None \<Rightarrow> Inl KeyError
           | Some d \<Rightarrow>
               (case o_enabled v of
                  None \<Rightarrow> Inl KeyError
                | Some e \<Rightarrow> Inr \<lparr>enabled = e, dhcp = d, address = None\<rparr>)))"

text \<open>The body of the inner loop of \<^verbatim>\<open>_ipv4_state_backup\<close>.\<close>

definition backup_interface :: "string \<Rightarrow> obs_interface \<Rightarrow> nncp \<Rightarrow> (error + unit) \<times> nncp" where
  "backup_interface node interface s =
     (if o_name interface \<in> set (ports s) then
        (case map_of (ipv4_iface_state s) node of
           None \<Rightarrow> (Inl KeyError, s)
         | Some d \<Rightarrow>
             (case obs_flags interface of
                Inl e \<Rightarrow> (Inl e, s)
              | Inr x \<Rightarrow>
                  (Inr (), s\<lparr>ipv4_iface_state :=
                              AList.update node (AList.update (o_name interface) x d)
                                (ipv4_iface_state s)\<rparr>)))
      else (Inr (), s))"

text \<open>
  \<^verbatim>\<open>_ipv4_state_backup\<close>: the node's entry is reset to \<^verbatim>\<open>{}\<close> before the node's current
  state is read.
\<close>

definition ipv4_state_backup :: "env \<Rightarrow> nncp \<Rightarrow> (error + unit) \<times> nncp" where
  "ipv4_state_backup env s =
     (case worker_pods s of
        None \<Rightarrow> (Inl TypeError, s)
      | Some pods \<Rightarrow>
          for_each (\<lambda>pod s1.
            (let s2 = s1\<lparr>ipv4_iface_state :=
                          AList.update (node_name pod) [] (ipv4_iface_state s1)\<rparr>
             in case call (GetCurrentState (node_name pod)) (ext_current_state env) s2 of
                  (Inl e, s3) \<Rightarrow> (Inl e, s3)
                | (Inr interfaces, s3) \<Rightarrow>
                    for_each (backup_interface (node_name pod)) interfaces s3)) pods s)"

section \<open>Rollback and clean-up\<close>

text \<open>
  The loops of \<^verbatim>\<open>_absent_interface\<close> that fill the local \<^verbatim>\<open>temp_ipv4_iface_state\<close>: for
  every reported interface that is one of the ports and whose flags differ from the
  backup, the backup is recorded. A missing backup entry raises \<^verbatim>\<open>KeyError\<close>.
\<close>

fun changed_interfaces ::
  "nncp \<Rightarrow> string \<Rightarrow> obs_interface list \<Rightarrow> (string \<times> (string \<times> ipv4) list) list \<Rightarrow>
   error + (string \<times> (string \<times> ipv4) list) list" where
  "changed_interfaces s node [] temp = Inr temp"
| "changed_interfaces s node (interface # rest) temp =
     (if o_name interface \<in> set (ports s) then
        (case obs_flags interface of
           Inl e \<Rightarrow> Inl e
         | Inr x \<Rightarrow>
             (case map_of (ipv4_iface_state s) node of
                None \<Rightarrow> Inl KeyError
              | Some saved_node \<Rightarrow>
                  (case map_of saved_node (o_name interface) of
                     None \<Rightarrow> Inl KeyError
                   | Some saved \<Rightarrow>
                       if saved \<noteq> x then
                         (case map_of temp node of
                            None \<Rightarrow> Inl KeyError
                          | Some d \<Rightarrow>
                              changed_interfaces s node rest
                                (AList.update node (AList.update (o_name interface) saved d) temp))
                       else changed_interfaces s node rest temp)))
      else changed_interfaces s node rest temp)"

fun changed_pods ::
  "env \<Rightarrow> pod list \<Rightarrow> (string \<times> (string \<times> ipv4) list) list \<Rightarrow> nncp \<Rightarrow>
   (error + (string \<times> (string \<times> ipv4) list) list) \<times> nncp" where
  "changed_pods env [] temp s = (Inr temp, s)"
| "changed_pods env (pod # pods) temp s =
     (let temp1 = AList.update (node_name pod) [] temp
      in case call (GetCurrentState (node_name pod)) (ext_current_state env) s of
           (Inl e, s1) \<Rightarrow> (Inl e, s1)
         | (Inr interfaces, s1) \<Rightarrow>
             (case changed_interfaces s1 (node_name pod) interfaces temp1 of
                Inl e \<Rightarrow> (Inl e, s1)
              | Inr temp2 \<Rightarrow> changed_pods env pods temp2 s1))"

text \<open>A dict literal is a new object: it gets the next free address.\<close>

definition new_interface :: "interface \<Rightarrow> nncp \<Rightarrow> nat \<times> nncp" where
  "new_interface v s = (length (heap s), s\<lparr>heap := heap s @ [v]\<rparr>)"

text \<open>\<^verbatim>\<open>interface = {"name": iface_name, "ipv4": ipv4}; self.set_interface(interface=interface)\<close>\<close>

definition restore_interface :: "string \<times> ipv4 \<Rightarrow> nncp \<Rightarrow> (error + unit) \<times> nncp" where
  "restore_interface item s =
     (case new_interface \<lparr>if_name = fst item, if_type = None, if_state = None, if_mtu = None,
                          if_ipv4 = Some (snd item), if_ipv6 = None\<rparr> s of
        (interface, s1) \<Rightarrow> (Inr (), set_interface interface s1))"

text \<open>
  The body of the loop of \<^verbatim>\<open>_absent_interface\<close> for one \<^verbatim>\<open>bridge\<close> of \<^verbatim>\<open>self.ifaces\<close>;
  \<open>mark_absent\<close> is \<^verbatim>\<open>bridge["state"] = self.Interface.State.ABSENT\<close>.
  \<^verbatim>\<open>next(iter(temp_ipv4_iface_state.values()))\<close> is the dict of the first node and raises
  \<^verbatim>\<open>StopIteration\<close> when there is no node.
\<close>

definition mark_absent :: "nat \<Rightarrow> nncp \<Rightarrow> nncp" where
  "mark_absent bridge s =
     s\<lparr>heap := (heap s)[bridge := (heap s ! bridge)\<lparr>if_state := Some State_ABSENT\<rparr>]\<rparr>"

definition absent_bridge :: "env \<Rightarrow> nat \<Rightarrow> nncp \<Rightarrow> (error + unit) \<times> nncp" where
  "absent_bridge env bridge s =
     (let s1 = mark_absent bridge s;
          s2 = set_interface bridge s1
      in if priv_ipv4_dhcp s2 then
           (case worker_pods s2 of
              None \<Rightarrow> (Inl TypeError, s2)
            | Some pods \<Rightarrow>
                (case changed_pods env pods [] s2 of
                   (Inl e, s3) \<Rightarrow> (Inl e, s3)
                 | (Inr temp_ipv4_iface_state, s3) \<Rightarrow>
                     (case temp_ipv4_iface_state of
                        [] \<Rightarrow> (Inl StopIteration, s3)
                      | first # others \<Rightarrow> for_each restore_interface (snd first) s3)))
         else (Inr (), s2))"

text \<open>\<^verbatim>\<open>_absent_interface\<close>: every interface of \<^verbatim>\<open>self.ifaces\<close> is marked, then \<^verbatim>\<open>apply\<close>.\<close>

definition absent_interface :: "env \<Rightarrow> nncp \<Rightarrow> (error + unit) \<times> nncp" where
  "absent_interface env s =
     (case for_each (absent_bridge env) (ifaces s) s of
        (Inl e, s1) \<Rightarrow> (Inl e, s1)
      | (Inr u, s1) \<Rightarrow> nncp_apply env s1)"

text \<open>The body of the first loop of \<^verbatim>\<open>clean_up\<close>, for one port.\<close>

definition restore_mtu :: "env \<Rightarrow> string \<Rightarrow> nncp \<Rightarrow> (error + unit) \<times> nncp" where
  "restore_mtu env port s =
     (case map_of (mtu_dict s) port of
        None \<Rightarrow> (Inl KeyError, s)
      | Some m \<Rightarrow>
          (case py_int env m of
             None \<Rightarrow> (Inl ValueError, s)
           | Some n \<Rightarrow>
               (case new_interface \<lparr>if_name = port, if_type = Some ''ethernet'',
                                    if_state = Some State_UP, if_mtu = Some n,
                                    if_ipv4 = None, if_ipv6 = None\<rparr> s of
                  (port_entry, s1) \<Rightarrow> (Inr (), set_interface port_entry s1))))"

text \<open>
  The \<^verbatim>\<open>try\<close> statement of \<^verbatim>\<open>clean_up\<close>: a \<^verbatim>\<open>TimeoutExpiredError\<close> of \<^verbatim>\<open>_absent_interface\<close> or
  of \<^verbatim>\<open>wait_for_interface_deleted\<close> is logged and swallowed, any other error goes on.
\<close>

definition absent_and_wait :: "env \<Rightarrow> nncp \<Rightarrow> (error + unit) \<times> nncp" where
  "absent_and_wait env s =
     (case absent_interface env s of
        (Inl e, s1) \<Rightarrow> (Inl e, s1)
      | (Inr u, s1) \<Rightarrow> wait_for_interface_deleted env s1)"

definition try_absent :: "env \<Rightarrow> nncp \<Rightarrow> (error + unit) \<times> nncp" where
  "try_absent env s =
     (case absent_and_wait env s of
        (Inl e, s1) \<Rightarrow>
          (if e = TimeoutExpiredError then (Inr (), log (LogException e) s1) else (Inl e, s1))
      | (Inr u, s1) \<Rightarrow> (Inr (), s1))"

subsection \<open>The clean-up loop and its termination\<close>

text \<open>
  What the clean-up loop iterates over: \<^verbatim>\<open>self.iface\<close> and \<^verbatim>\<open>self.ifaces\<close>. Only \<^verbatim>\<open>to_dict\<close>
  changes them, and it can only append \<^verbatim>\<open>self.iface\<close> when that object is not yet in the
  list; \<open>bound\<close> is the length the list can reach.
\<close>

definition shape :: "nncp \<Rightarrow> nat option \<times> nat list" where
  "shape s = (iface s, ifaces s)"

lemma shape_trace [simp]: "shape (s\<lparr>trace := t\<rparr>) = shape s"
  by (simp add: shape_def)

lemma shape_heap [simp]: "shape (s\<lparr>heap := h\<rparr>) = shape s"
  by (simp add: shape_def)

lemma shape_call: "call ev oracle s = (r, s') \<Longrightarrow> shape s' = shape s"
  by (auto simp: call_def Let_def)

lemma shape_log [simp]: "shape (log ev s) = shape s"
  by (simp add: log_def)

lemma shape_set_interface [simp]: "shape (set_interface a s) = shape s"
  by (simp add: set_interface_def shape_def Let_def)

lemma shape_for_each:
  assumes "\<And>x s r s'. body x s = (r, s') \<Longrightarrow> shape s' = shape s"
  shows "for_each body xs s = (r, s') \<Longrightarrow> shape s' = shape s"
proof (induction xs arbitrary: s)
  case Nil
  then show ?case by simp
next
  case (Cons x xs)
  obtain r1 s1 where b: "body x s = (r1, s1)" by (cases "body x s")
  show ?case
  proof (cases r1)
    case (Inl e)
    with Cons.prems b assms[OF b] show ?thesis by simp
  next
    case (Inr u)
    with Cons.prems b have "for_each body xs s1 = (r, s')" by simp
    from Cons.IH[OF this] assms[OF b] show ?thesis by simp
  qed
qed

lemma shape_sample_once:
  assumes "\<And>s r s'. func s = (r, s') \<Longrightarrow> shape s' = shape s"
    and "\<And>x s r s'. body x s = (r, s') \<Longrightarrow> shape s' = shape s"
  shows "sample_once exceptions func body s = (r, s') \<Longrightarrow> shape s' = shape s"
  unfolding sample_once_def
  by (auto split: prod.splits sum.splits step.splits if_splits dest!: assms)

lemma shape_TimeoutSampler:
  assumes f: "\<And>s r s'. func s = (r, s') \<Longrightarrow> shape s' = shape s"
    and b: "\<And>x s r s'. body x s = (r, s') \<Longrightarrow> shape s' = shape s"
  shows "TimeoutSampler timeout sleep exceptions func body elapsed s = (r, s') \<Longrightarrow> shape s' = shape s"
  using f b
proof (induction timeout sleep exceptions func body elapsed s rule: TimeoutSampler.induct)
  case (1 timeout sleep exceptions func body elapsed s)
  obtain o1 s1 where so: "sample_once exceptions func body s = (o1, s1)"
    by (cases "sample_once exceptions func body s")
  have s1: "shape s1 = shape s"
    using shape_sample_once[OF _ _ so] "1.prems"(2,3) by blast
  show ?case
  proof (cases o1)
    case (Some x)
    with "1.prems"(1) so s1 show ?thesis
      by (simp add: TimeoutSampler.simps[of timeout sleep exceptions func body elapsed s])
  next
    case None
    show ?thesis
    proof (cases "sleep = 0 \<or> timeout \<le> elapsed + sleep")
      case True
      with "1.prems"(1) so None s1 show ?thesis
        by (auto simp add: TimeoutSampler.simps[of timeout sleep exceptions func body elapsed s] Let_def)
    next
      case False
      with "1.prems"(1) so None
      have "TimeoutSampler timeout sleep exceptions func body (elapsed + sleep) (log (Sleep sleep) s1) = (r, s')"
        by (auto simp add: TimeoutSampler.simps[of timeout sleep exceptions func body elapsed s] Let_def)
      from "1.IH"[OF so[symmetric] None refl False this "1.prems"(2,3)] s1
      show ?thesis by simp
    qed
  qed
qed


definition bound :: "nncp \<Rightarrow> nat" where
  "bound s =
     length (ifaces s) + (case iface s of None \<Rightarrow> 0 | Some a \<Rightarrow> if a \<in> set (ifaces s) then 0 else 1)"

lemma bound_shape: "shape s' = shape s \<Longrightarrow> bound s' = bound s"
  by (simp add: shape_def bound_def cong: option.case_cong)

lemma length_ifaces_bound: "length (ifaces s) \<le> bound s"
  by (simp add: bound_def)

lemma shape_wait_for_interface_deleted:
  "wait_for_interface_deleted env s = (r, s') \<Longrightarrow> shape s' = shape s"
  unfolding wait_for_interface_deleted_def
  by (auto split: option.splits elim!: shape_for_each[rotated] dest: shape_call)

lemma shape_changed_pods: "changed_pods env pods temp s = (r, s') \<Longrightarrow> shape s' = shape s"
proof (induction pods arbitrary: temp s)
  case Nil
  then show ?case by simp
next
  case (Cons pod pods)
  obtain r1 s1 where c: "call (GetCurrentState (node_name pod)) (ext_current_state env) s = (r1, s1)"
    by (cases "call (GetCurrentState (node_name pod)) (ext_current_state env) s")
  from shape_call[OF c] have s1: "shape s1 = shape s" .
  from Cons.prems c s1 show ?case
    by (auto simp: Let_def split: sum.splits dest: Cons.IH)
qed

lemma shape_restore_interface: "restore_interface item s = (r, s') \<Longrightarrow> shape s' = shape s"
  by (auto simp: restore_interface_def new_interface_def)

lemma shape_restore_all: "for_each restore_interface xs s = (r, s') \<Longrightarrow> shape s' = shape s"
  by (rule shape_for_each[OF shape_restore_interface])

lemma shape_mark_absent [simp]: "shape (mark_absent a s) = shape s"
  by (simp add: mark_absent_def)

lemma shape_write_protocols [simp]: "shape (write_protocols a s) = shape s"
  by (simp add: write_protocols_def Let_def)

lemma shape_absent_bridge:
  assumes "absent_bridge env bridge s = (r, s')"
  shows "shape s' = shape s"
proof -
  define s2 where "s2 = set_interface bridge (mark_absent bridge s)"
  have s2: "shape s2 = shape s" by (simp add: s2_def)
  show ?thesis
  proof (cases "priv_ipv4_dhcp s2")
    case False
    with assms have "s' = s2" by (simp add: absent_bridge_def Let_def s2_def)
    with s2 show ?thesis by simp
  next
    case True
    show ?thesis
    proof (cases "worker_pods s2")
      case None
      with assms True have "s' = s2" by (simp add: absent_bridge_def Let_def s2_def)
      with s2 show ?thesis by simp
    next
      case (Some pods)
      obtain r3 s3 where c: "changed_pods env pods [] s2 = (r3, s3)"
        by (cases "changed_pods env pods [] s2")
      from shape_changed_pods[OF c] s2 have s3: "shape s3 = shape s" by simp
      from assms True Some c
      have "(\<exists>e. r3 = Inl e \<and> s' = s3) \<or> (r3 = Inr [] \<and> s' = s3) \<or>
            (\<exists>first others. r3 = Inr (first # others) \<and>
               for_each restore_interface (snd first) s3 = (r, s'))"
        by (auto simp add: absent_bridge_def Let_def s2_def split: sum.splits list.splits)
      with s3 show ?thesis
        by (auto dest!: shape_restore_all)
    qed
  qed
qed

lemma remember_iface_bound:
  assumes "iface s = Some a"
  shows "bound (remember_iface a s) \<le> bound s"
proof (cases "heap s ! a \<in> set (map (\<lambda>i. heap s ! i) (ifaces s))")
  case True
  then show ?thesis by (simp add: remember_iface_def)
next
  case False
  then have "a \<notin> set (ifaces s)" by auto
  with False assms show ?thesis by (simp add: remember_iface_def bound_def)
qed

lemma to_dict_bound:
  assumes "to_dict s = (r, s')"
  shows "bound s' \<le> bound s"
proof (cases "priv_node_selector s")
  case None
  with assms show ?thesis by (simp add: to_dict_def)
next
  case sel: (Some sel)
  show ?thesis
  proof (cases "iface s")
    case None
    with assms sel show ?thesis by (simp add: to_dict_def)
  next
    case (Some a)
    define s2 where "s2 = set_interface a (write_protocols a s)"
    have sh: "shape s2 = shape s" by (simp add: s2_def)
    then have "iface s2 = Some a" using Some by (simp add: shape_def)
    from remember_iface_bound[OF this] bound_shape[OF sh]
    have "bound (remember_iface a s2) \<le> bound s" by simp
    moreover from assms sel Some have "s' = remember_iface a s2"
      by (auto simp add: to_dict_def Let_def s2_def)
    ultimately show ?thesis by simp
  qed
qed

lemma nncp_apply_bound:
  assumes "nncp_apply env s = (r, s')"
  shows "bound s' \<le> bound s"
proof -
  obtain r1 s1 where t: "to_dict s = (r1, s1)" by (cases "to_dict s")
  from to_dict_bound[OF t] have b1: "bound s1 \<le> bound s" .
  show ?thesis
  proof (cases r1)
    case (Inl e)
    with assms t b1 show ?thesis by (simp add: nncp_apply_def)
  next
    case (Inr resource)
    with assms t have
      "TimeoutSampler 3 1 (\<lambda>e. e = ConflictError) (call (Update resource) (ext_update env))
         (\<lambda>sample s'. (Return (), s')) 0 s1 = (r, s')"
      by (simp add: nncp_apply_def)
    then have "shape s' = shape s1"
    proof (rule shape_TimeoutSampler[rotated 2])
      show "\<And>s r s'. call (Update resource) (ext_update env) s = (r, s') \<Longrightarrow> shape s' = shape s"
        by (rule shape_call)
      show "\<And>x s r s'. (Return (), s) = (r, s') \<Longrightarrow> shape s' = shape s"
        by simp
    qed
    from bound_shape[OF this] b1 show ?thesis by simp
  qed
qed

lemma absent_interface_bound:
  assumes "absent_interface env s = (r, s')"
  shows "bound s' \<le> bound s"
proof -
  obtain r1 s1 where l: "for_each (absent_bridge env) (ifaces s) s = (r1, s1)"
    by (cases "for_each (absent_bridge env) (ifaces s) s")
  have "shape s1 = shape s"
    by (rule shape_for_each[OF _ l]) (rule shape_absent_bridge)
  then have b1: "bound s1 = bound s" by (rule bound_shape)
  from assms l b1 show ?thesis
    by (auto simp: absent_interface_def split: sum.splits dest: nncp_apply_bound)
qed

lemma shape_absent_and_wait_bound:
  assumes "absent_and_wait env s = (r, s')"
  shows "bound s' \<le> bound s"
proof -
  obtain r1 s1 where a: "absent_interface env s = (r1, s1)" by (cases "absent_interface env s")
  from absent_interface_bound[OF a] have b1: "bound s1 \<le> bound s" .
  show ?thesis
  proof (cases r1)
    case (Inl e)
    with assms a b1 show ?thesis by (simp add: absent_and_wait_def)
  next
    case (Inr u)
    with assms a have "wait_for_interface_deleted env s1 = (r, s')"
      by (simp add: absent_and_wait_def)
    from bound_shape[OF shape_wait_for_interface_deleted[OF this]] b1 show ?thesis by simp
  qed
qed

lemma try_absent_bound:
  assumes "try_absent env s = (r, s')"
  shows "bound s' \<le> bound s"
proof -
  obtain r2 s2 where w: "absent_and_wait env s = (r2, s2)" by (cases "absent_and_wait env s")
  from shape_absent_and_wait_bound[OF w] have b2: "bound s2 \<le> bound s" .
  from assms w have "s' = s2 \<or> s' = log (LogException TimeoutExpiredError) s2"
    by (auto simp: try_absent_def split: sum.splits if_splits)
  then have "bound s' = bound s2"
    by (auto intro: bound_shape)
  with b2 show ?thesis by simp
qed

text \<open>
  The second loop of \<^verbatim>\<open>clean_up\<close>. Python iterates \<^verbatim>\<open>self.ifaces\<close> by index over the live
  list, and \<^verbatim>\<open>to_dict\<close> (reached through \<^verbatim>\<open>_absent_interface\<close> and \<^verbatim>\<open>apply\<close>) may append
  \<^verbatim>\<open>self.iface\<close> to it while the loop runs; the loop then also visits the new entry. It
  ends because at most one entry can be added (\<open>bound\<close> above).
\<close>

function clean_up_loop :: "env \<Rightarrow> nat \<Rightarrow> nncp \<Rightarrow> (error + unit) \<times> nncp" where
  "clean_up_loop env i s =
     (if i < length (ifaces s) then
        (if if_name (heap s ! (ifaces s ! i)) \<in> set (node_active_nics s)
         then clean_up_loop env (Suc i) s
         else
           (case try_absent env s of
              (Inl e, s1) \<Rightarrow> (Inl e, s1)
            | (Inr u, s1) \<Rightarrow> clean_up_loop env (Suc i) s1))
      else (Inr (), s))"
  by pat_completeness auto
termination
proof (relation "measure (\<lambda>(env, i, s). bound s - i)", goal_cases)
  case 1
  show ?case by simp
next
  case (2 env i s)
  with length_ifaces_bound[of s] show ?case by simp
next
  case (3 env i s)
  from try_absent_bound[OF 3(3)[symmetric]] length_ifaces_bound[of s] 3(1)
  show ?case by simp
qed

declare clean_up_loop.simps [simp del]

text \<open>\<^verbatim>\<open>clean_up\<close>\<close>

definition clean_up :: "env \<Rightarrow> nncp \<Rightarrow> (error + unit) \<times> nncp" where
  "clean_up env s =
     (case (if truthy_int (mtu s) then for_each (restore_mtu env) (ports s) s else (Inr (), s)) of
        (Inl e, s1) \<Rightarrow> (Inl e, s1)
      | (Inr u, s1) \<Rightarrow>
          (case clean_up_loop env 0 s1 of
             (Inl e, s2) \<Rightarrow> (Inl e, s2)
           | (Inr u', s2) \<Rightarrow> call Delete (ext_delete env) s2))"

section \<open>Managed scope\<close>

text \<open>The MTU backup of \<^verbatim>\<open>__enter__\<close>, for one pod and one port.\<close>

definition backup_mtu :: "env \<Rightarrow> pod \<Rightarrow> string \<Rightarrow> nncp \<Rightarrow> (error + unit) \<times> nncp" where
  "backup_mtu env pod port s =
     (case call (Execute (node_name pod) [''cat'', ''/sys/class/net/'' @ port @ ''/mtu''])
             (ext_execute env) s of
        (Inl e, s1) \<Rightarrow> (Inl e, s1)
      | (Inr out, s1) \<Rightarrow>
          (let mtu = py_strip env out;
               s2 = log (LogInfo (''Backup MTU: '' @ node_name pod @ '' interface '' @ port @
                                  '' MTU is '' @ mtu)) s1
           in (Inr (), s2\<lparr>mtu_dict := AList.update port mtu (mtu_dict s2)\<rparr>)))"

text \<open>\<^verbatim>\<open>__enter__\<close> up to and including \<^verbatim>\<open>super().__enter__()\<close>: the part outside \<^verbatim>\<open>try\<close>.\<close>

definition enter_setup :: "env \<Rightarrow> nncp \<Rightarrow> (error + unit) \<times> nncp" where
  "enter_setup env s =
     (case (if priv_ipv4_dhcp s then ipv4_state_backup env s else (Inr (), s)) of
        (Inl e, s1) \<Rightarrow> (Inl e, s1)
      | (Inr u, s1) \<Rightarrow>
          (case (if truthy_int (mtu s1) then
                   (case worker_pods s1 of
                      None \<Rightarrow> (Inl TypeError, s1)
                    | Some pods \<Rightarrow>
                        for_each (\<lambda>pod s'. for_each (backup_mtu env pod) (ports s') s') pods s1)
                 else (Inr (), s1)) of
             (Inl e, s2) \<Rightarrow> (Inl e, s2)
           | (Inr u', s2) \<Rightarrow> ext_super_enter env s2))"

text \<open>The body of the \<^verbatim>\<open>try\<close> of \<^verbatim>\<open>__enter__\<close>.\<close>

definition enter_try :: "env \<Rightarrow> nncp \<Rightarrow> (error + unit) \<times> nncp" where
  "enter_try env s =
     (case wait_for_status_success env s of
        (Inl e, s1) \<Rightarrow> (Inl e, s1)
      | (Inr sample, s1) \<Rightarrow> validate_create env s1)"

text \<open>
  \<^verbatim>\<open>__enter__\<close>. Every \<open>error\<close> is an \<^verbatim>\<open>Exception\<close>, so \<^verbatim>\<open>except Exception\<close> catches it: it is
  logged, \<^verbatim>\<open>clean_up\<close> runs, and the bare \<^verbatim>\<open>raise\<close> re-raises it, unless \<^verbatim>\<open>clean_up\<close> itself
  raises, which then is the exception that leaves \<^verbatim>\<open>__enter__\<close>.
\<close>

definition nncp_enter :: "env \<Rightarrow> nncp \<Rightarrow> (error + unit) \<times> nncp" where
  "nncp_enter env s =
     (case enter_setup env s of
        (Inl e, s1) \<Rightarrow> (Inl e, s1)
      | (Inr u, s1) \<Rightarrow>
          (case enter_try env s1 of
             (Inr u', s2) \<Rightarrow> (Inr (), s2)
           | (Inl e, s2) \<Rightarrow>
               (case clean_up env (log (LogException e) s2) of
                  (Inl e', s3) \<Rightarrow> (Inl e', s3)
                | (Inr u', s3) \<Rightarrow> (Inl e, s3))))"

text \<open>\<^verbatim>\<open>__exit__\<close>\<close>

definition nncp_exit :: "env \<Rightarrow> nncp \<Rightarrow> (error + unit) \<times> nncp" where
  "nncp_exit env s = (if \<not> teardown s then (Inr (), s) else clean_up env s)"

section \<open>Example objects\<close>

text \<open>Concrete policies and environments on which the theorems below are run.\<close>

definition demo_heap :: "interface list" where
  "demo_heap =
     [\<lparr>if_name = ''br1'', if_type = Some ''linux-bridge'', if_state = Some ''up'', if_mtu = None,
       if_ipv4 = None, if_ipv6 = None\<rparr>,
      \<lparr>if_name = ''br1'', if_type = Some ''linux-bridge'', if_state = Some ''down'', if_mtu = None,
       if_ipv4 = None, if_ipv6 = None\<rparr>,
      \<lparr>if_name = ''eth0'', if_type = Some ''ethernet'', if_state = Some ''up'', if_mtu = None,
       if_ipv4 = None, if_ipv6 = None\<rparr>]"

definition demo_policy :: nncp where
  "demo_policy =
     \<lparr>name = ''policy'', teardown = True, desired_state = [],
      worker_pods = Some [Pod ''node1''], mtu = None, mtu_dict = [], ports = [],
      iface = None, ifaces = [], node_active_nics = [], ipv4_enable = False,
      priv_ipv4_dhcp = False, ipv4_addresses = [], ipv6_enable = False, ipv4_iface_state = [],
      node_selector = None,
      priv_node_selector = Some [(''node-role.kubernetes.io/worker'', [])],
      heap = demo_heap, trace = []\<rparr>"

definition demo_static :: nncp where
  "demo_static =
     demo_policy\<lparr>iface := Some 0, ipv4_enable := True,
                  ipv4_addresses := [\<lparr>ip = ''10.1.2.3'', prefix_length = 24\<rparr>]\<rparr>"

definition demo_args :: nncp_args where
  "demo_args =
     \<lparr>arg_name = ''policy'', arg_worker_pods = Some [Pod ''node1'', Pod ''node2''],
      arg_node_selector = Some ''node3'', arg_teardown = True, arg_mtu = None, arg_ports = None,
      arg_ipv4_enable = False, arg_ipv4_dhcp = False, arg_ipv4_addresses = None,
      arg_ipv6_enable = False, arg_node_active_nics = None\<rparr>"

definition demo_env :: env where
  "demo_env =
     \<lparr>ext_super_enter =
        (\<lambda>s. case to_dict s of
                (Inl e, s1) \<Rightarrow> (Inl e, s1)
              | (Inr resource, s1) \<Rightarrow> (Inr (), log Enter s1)),
      ext_update = (\<lambda>h. Inr ()),
      ext_delete = (\<lambda>h. Inr ()),
      ext_conditions =
        (\<lambda>h. Inr (Some [\<lparr>c_type = ''Available'', c_reason = ''SuccessfullyConfigured''\<rparr>])),
      ext_current_state = (\<lambda>h. Inr []),
      ext_wait_until_deleted = (\<lambda>h. Inr ()),
      ext_wait_until_up = (\<lambda>h. Inr ()),
      ext_execute = (\<lambda>h. Inr ''1500''),
      py_strip = (\<lambda>x. x),
      py_int = (\<lambda>x. if x = ''1500'' then Some 1500 else None)\<rparr>"

definition demo_nic :: nncp where
  "demo_nic =
     demo_policy\<lparr>iface := Some 0, ifaces := [2, 0], desired_state := [2, 0],
                  node_active_nics := [''eth0'']\<rparr>"

definition demo_pair :: nncp where
  "demo_pair = demo_policy\<lparr>iface := Some 0, ifaces := [0, 2], desired_state := [0, 2]\<rparr>"

definition stuck_env :: env where
  "stuck_env = demo_env\<lparr>ext_wait_until_deleted := (\<lambda>h. Inl TimeoutExpiredError)\<rparr>"

definition slow_success :: "event list \<Rightarrow> error + condition list option" where
  "slow_success h =
     (if length h < 5 then Inr (Some [])
      else if length h < 10 then
        Inr (Some [\<lparr>c_type = ''Progressing'', c_reason = ''ConfigurationProgressing''\<rparr>])
      else Inr (Some [\<lparr>c_type = ''Progressing'', c_reason = ''ConfigurationProgressing''\<rparr>,
                      \<lparr>c_type = ''Available'', c_reason = ''SuccessfullyConfigured''\<rparr>]))"

definition always_failed :: "event list \<Rightarrow> error + condition list option" where
  "always_failed h = Inr (Some [\<lparr>c_type = ''Available'', c_reason = ''FailedToConfigure''\<rparr>])"

definition demo_keep :: nncp where
  "demo_keep = demo_static\<lparr>teardown := False\<rparr>"

definition failing_env :: env where
  "failing_env = demo_env\<lparr>ext_conditions := always_failed\<rparr>"

definition create_fails :: env where
  "create_fails =
     demo_env\<lparr>ext_super_enter := (\<lambda>s. (Inl (OtherError ''create failed''), log Enter s))\<rparr>"

definition demo_dhcp :: nncp where
  "demo_dhcp =
     demo_policy\<lparr>iface := Some 0, ifaces := [0], desired_state := [0], priv_ipv4_dhcp := True,
                  ipv4_enable := True, ports := [''port1''],
                  ipv4_iface_state :=
                    [(''node1'', [(''port1'', \<lparr>enabled = True, dhcp = False, address = None\<rparr>)])]\<rparr>"

definition dhcp_env :: env where
  "dhcp_env =
     demo_env\<lparr>ext_current_state :=
       (\<lambda>h. Inr [\<lparr>o_name = ''br1'', o_ipv4 = Some \<lparr>o_dhcp = None, o_enabled = Some False\<rparr>\<rparr>,
                  \<lparr>o_name = ''port1'',
                   o_ipv4 = Some \<lparr>o_dhcp = Some True, o_enabled = Some True\<rparr>\<rparr>])\<rparr>"

lemma demo_policy_simps:
  "heap demo_policy = demo_heap" "desired_state demo_policy = []"
  by (simp_all add: demo_policy_def)

section \<open>Properties of the builder\<close>

lemma heap_set_interface [simp]: "heap (set_interface a s) = heap s"
  by (simp add: set_interface_def Let_def)

lemma desired_state_set_interface:
  "desired_state (set_interface a s) =
     filter (\<lambda>i. if_name (heap s ! i) \<noteq> if_name (heap s ! a)) (desired_state s) @ [a]"
  by (simp add: set_interface_def Let_def)

lemma heap_fold_set_interface [simp]: "heap (fold set_interface calls s) = heap s"
  by (induction calls arbitrary: s) simp_all

lemma distinct_names_set_interface:
  assumes "distinct (map (\<lambda>i. if_name (heap s ! i)) (desired_state s))"
  shows "distinct (map (\<lambda>i. if_name (heap s ! i)) (desired_state (set_interface a s)))"
  using assms by (auto simp: desired_state_set_interface distinct_map_filter)

text \<open>
  C3. Calls of \<^verbatim>\<open>set_interface\<close> keep the names in the desired-state list distinct (they are
  distinct in the empty list the constructor builds), so the list has at most one entry per
  name after every sequence of calls. After \<^verbatim>\<open>set_interface(a)\<close> and then \<^verbatim>\<open>set_interface(b)\<close>
  the only entry of the name of \<open>b\<close> is \<open>b\<close>: when \<open>a\<close> has the same name and is another
  object, \<open>a\<close> is gone and the second call's content stands.
\<close>

theorem set_interface_last_write_wins:
  "(distinct (map (\<lambda>i. if_name (heap s ! i)) (desired_state s)) \<longrightarrow>
      distinct (map (\<lambda>i. if_name (heap s ! i)) (desired_state (fold set_interface calls s))))
   \<and> filter (\<lambda>i. if_name (heap s ! i) = if_name (heap s ! b))
        (desired_state (set_interface b (set_interface a s))) = [b]
   \<and> (if_name (heap s ! a) = if_name (heap s ! b) \<and> a \<noteq> b \<longrightarrow>
        a \<notin> set (desired_state (set_interface b (set_interface a s))))"
proof (intro conjI impI)
  assume "distinct (map (\<lambda>i. if_name (heap s ! i)) (desired_state s))"
  then show "distinct (map (\<lambda>i. if_name (heap s ! i)) (desired_state (fold set_interface calls s)))"
  proof (induction calls arbitrary: s)
    case Nil
    then show ?case by simp
  next
    case (Cons c calls)
    from distinct_names_set_interface[OF Cons.prems, of c]
    have "distinct (map (\<lambda>i. if_name (heap (set_interface c s) ! i))
            (desired_state (set_interface c s)))" by simp
    from Cons.IH[OF this] show ?case by simp
  qed
next
  show "filter (\<lambda>i. if_name (heap s ! i) = if_name (heap s ! b))
          (desired_state (set_interface b (set_interface a s))) = [b]"
    by (simp add: desired_state_set_interface)
next
  assume "if_name (heap s ! a) = if_name (heap s ! b) \<and> a \<noteq> b"
  then show "a \<notin> set (desired_state (set_interface b (set_interface a s)))"
    by (simp add: desired_state_set_interface)
qed

theorem set_interface_last_write_wins_witness:
  "distinct (map (\<lambda>i. if_name (heap demo_policy ! i)) (desired_state demo_policy))
   \<and> map (\<lambda>i. heap demo_policy ! i) (desired_state (fold set_interface [0, 2, 1] demo_policy))
       = [demo_heap ! 2, demo_heap ! 1]
   \<and> distinct (map (\<lambda>i. if_name (heap demo_policy ! i))
        (desired_state (fold set_interface [0, 2, 1] demo_policy)))
   \<and> if_name (heap demo_policy ! 0) = if_name (heap demo_policy ! 1) \<and> (0::nat) \<noteq> 1
   \<and> 0 \<notin> set (desired_state (set_interface 1 (set_interface 0 demo_policy)))"
  using set_interface_last_write_wins[of demo_policy "[0, 2, 1]" 1 0]
  by (simp add: demo_policy_simps demo_heap_def desired_state_set_interface)

lemma heap_remember_iface [simp]: "heap (remember_iface a s) = heap s"
  by (simp add: remember_iface_def)

lemma desired_state_remember_iface [simp]: "desired_state (remember_iface a s) = desired_state s"
  by (simp add: remember_iface_def)

lemma desired_state_write_protocols [simp]: "desired_state (write_protocols a s) = desired_state s"
  by (simp add: write_protocols_def Let_def)

lemma name_write_protocols [simp]:
  "if_name (heap (write_protocols a s) ! i) = if_name (heap s ! i)"
  by (cases "i = a"; cases "a < length (heap s)")
     (simp_all add: write_protocols_def Let_def not_less list_update_beyond)

lemma ipv4_write_protocols:
  "a < length (heap s) \<Longrightarrow>
   if_ipv4 (heap (write_protocols a s) ! a) =
     Some \<lparr>enabled = ipv4_enable s, dhcp = priv_ipv4_dhcp s,
           address = (if ipv4_addresses s = [] then None else Some (ipv4_addresses s))\<rparr>"
  by (simp add: write_protocols_def Let_def)

text \<open>
  C7. When \<^verbatim>\<open>_node_selector\<close> is assigned and the primary interface \<^verbatim>\<open>self.iface\<close> is an
  object, \<^verbatim>\<open>to_dict\<close> returns a document; the primary interface's \<^verbatim>\<open>ipv4\<close> object carries
  the configured \<^verbatim>\<open>enabled\<close> and \<^verbatim>\<open>dhcp\<close> flags, its \<^verbatim>\<open>address\<close> is the configured list when
  that list is not empty and is missing when it is empty, and this interface is the one
  entry of its name in the document.
\<close>

theorem to_dict_ipv4_address:
  assumes "priv_node_selector s = Some sel" and "iface s = Some a" and "a < length (heap s)"
  shows "\<exists>d s'. to_dict s = (Inr d, s')
           \<and> if_ipv4 (heap s' ! a) =
               Some \<lparr>enabled = ipv4_enable s, dhcp = priv_ipv4_dhcp s,
                     address = (if ipv4_addresses s = [] then None
                                else Some (ipv4_addresses s))\<rparr>
           \<and> filter (\<lambda>x. if_name x = if_name (heap s ! a)) (spec_desiredState d) = [heap s' ! a]"
proof -
  define s1 where "s1 = write_protocols a s"
  define s3 where "s3 = remember_iface a (set_interface a s1)"
  have t: "to_dict s = (Inr (document sel s3), s3)"
    using assms(1,2) by (simp add: to_dict_def Let_def s3_def s1_def)
  have h: "heap s3 = heap s1" by (simp add: s3_def)
  have v4: "if_ipv4 (heap s3 ! a) =
      Some \<lparr>enabled = ipv4_enable s, dhcp = priv_ipv4_dhcp s,
            address = (if ipv4_addresses s = [] then None else Some (ipv4_addresses s))\<rparr>"
    using ipv4_write_protocols[OF assms(3)] by (simp add: h s1_def)
  have ds: "desired_state s3 =
      filter (\<lambda>i. if_name (heap s ! i) \<noteq> if_name (heap s ! a)) (desired_state s) @ [a]"
    by (simp add: s3_def s1_def desired_state_set_interface)
  have "filter (\<lambda>x. if_name x = if_name (heap s ! a)) (spec_desiredState (document sel s3))
          = [heap s3 ! a]"
    by (simp add: document_def ds filter_map o_def h s1_def)
  with t v4 show ?thesis by blast
qed

theorem to_dict_ipv4_address_witness:
  "priv_node_selector demo_static = Some [(''node-role.kubernetes.io/worker'', [])]
   \<and> iface demo_static = Some 0 \<and> 0 < length (heap demo_static)
   \<and> (\<exists>d s'. to_dict demo_static = (Inr d, s')
         \<and> if_ipv4 (heap s' ! 0) =
             Some \<lparr>enabled = True, dhcp = False,
                   address = Some [\<lparr>ip = ''10.1.2.3'', prefix_length = 24\<rparr>]\<rparr>
         \<and> filter (\<lambda>x. if_name x = ''br1'') (spec_desiredState d) = [heap s' ! 0])"
  using to_dict_ipv4_address[of demo_static "[(''node-role.kubernetes.io/worker'', [])]" 0]
  by (simp add: demo_static_def demo_policy_def demo_heap_def)

text \<open>
  C9. A non-empty \<^verbatim>\<open>node_selector\<close> that matches no pod of \<^verbatim>\<open>worker_pods\<close> (also when the
  list is empty) leaves \<^verbatim>\<open>_node_selector\<close> unassigned; \<^verbatim>\<open>to_dict\<close> on an object without
  \<^verbatim>\<open>_node_selector\<close> raises \<^verbatim>\<open>AttributeError\<close> and changes nothing; and the constructor
  assigns the role-based worker selector exactly when \<^verbatim>\<open>node_selector\<close> is \<^verbatim>\<open>None\<close> or the
  empty string, the two values \<^verbatim>\<open>if self.node_selector\<close> takes for "not supplied".
\<close>

theorem unmatched_node_selector:
  "(arg_node_selector a = Some h \<and> h \<noteq> [] \<and> arg_worker_pods a = Some pods
      \<and> (\<forall>p \<in> set pods. node_name p \<noteq> h)
      \<longrightarrow> (\<exists>s0. nncp_init a = Inr s0 \<and> priv_node_selector s0 = None))
   \<and> (priv_node_selector s = None \<longrightarrow> to_dict s = (Inl AttributeError, s))
   \<and> (nncp_init a = Inr s1 \<longrightarrow>
        (priv_node_selector s1 = Some [(''node-role.kubernetes.io/worker'', [])]
         \<longleftrightarrow> arg_node_selector a = None \<or> arg_node_selector a = Some []))"
proof (intro conjI impI)
  assume "arg_node_selector a = Some h \<and> h \<noteq> [] \<and> arg_worker_pods a = Some pods
      \<and> (\<forall>p \<in> set pods. node_name p \<noteq> h)"
  then have sel: "arg_node_selector a = Some h" and h: "h \<noteq> []"
    and pods: "arg_worker_pods a = Some pods"
    and none: "find (\<lambda>pod. node_name pod = h) pods = None"
    by (auto simp: find_None_iff)
  show "\<exists>s0. nncp_init a = Inr s0 \<and> priv_node_selector s0 = None"
    by (simp add: nncp_init_def Let_def sel h pods none)
next
  assume "priv_node_selector s = None"
  then show "to_dict s = (Inl AttributeError, s)" by (simp add: to_dict_def)
next
  assume "nncp_init a = Inr s1"
  then show "priv_node_selector s1 = Some [(''node-role.kubernetes.io/worker'', [])]
         \<longleftrightarrow> arg_node_selector a = None \<or> arg_node_selector a = Some []"
    by (auto simp: nncp_init_def Let_def split: option.splits if_splits)
qed

theorem unmatched_node_selector_witness:
  "arg_node_selector demo_args = Some ''node3'' \<and> ''node3'' \<noteq> []
   \<and> arg_worker_pods demo_args = Some [Pod ''node1'', Pod ''node2'']
   \<and> node_name (Pod ''node1'') \<noteq> ''node3'' \<and> node_name (Pod ''node2'') \<noteq> ''node3''
   \<and> (\<exists>s0. nncp_init demo_args = Inr s0 \<and> priv_node_selector s0 = None
          \<and> to_dict s0 = (Inl AttributeError, s0)
          \<and> priv_node_selector s0 \<noteq> Some [(''node-role.kubernetes.io/worker'', [])])"
proof -
  have pre: "arg_node_selector demo_args = Some ''node3'' \<and> ''node3'' \<noteq> []
     \<and> arg_worker_pods demo_args = Some [Pod ''node1'', Pod ''node2'']
     \<and> (\<forall>p \<in> set [Pod ''node1'', Pod ''node2'']. node_name p \<noteq> ''node3'')"
    by (simp add: demo_args_def)
  from unmatched_node_selector[of demo_args "''node3''" "[Pod ''node1'', Pod ''node2'']"] pre
  obtain s0 where s0: "nncp_init demo_args = Inr s0" "priv_node_selector s0 = None" by blast
  from unmatched_node_selector[of demo_args "''node3''" "[Pod ''node1'', Pod ''node2'']" s0 s0] s0
  have "to_dict s0 = (Inl AttributeError, s0)" by blast
  with pre s0 show ?thesis by auto
qed

section \<open>Properties of the polling utility and the applier\<close>

text \<open>The events of \<open>k\<close> polls that did not end the loop, each followed by its sleep.\<close>

definition polls :: "event \<Rightarrow> nat \<Rightarrow> nat \<Rightarrow> event list" where
  "polls ev sleep k = concat (replicate k [ev, Sleep sleep])"

lemma polls_0 [simp]: "polls ev sleep 0 = []"
  by (simp add: polls_def)

lemma polls_Suc: "polls ev sleep (Suc k) = ev # Sleep sleep # polls ev sleep k"
  by (simp add: polls_def)

lemma sample_once_continue:
  assumes "func s = (r, s1)"
    and "case r of Inl e \<Rightarrow> exceptions e | Inr x \<Rightarrow> body x s1 = (Continue, s1)"
  shows "sample_once exceptions func body s = (None, s1)"
  using assms by (auto simp: sample_once_def split: sum.splits)

lemma TimeoutSampler_skip:
  assumes func: "\<And>s. func s = (g (trace s @ [ev]), s\<lparr>trace := trace s @ [ev]\<rparr>)"
    and body: "\<And>x s. c x \<Longrightarrow> body x s = (Continue, s)"
    and sleep: "0 < sleep"
  shows "(\<forall>i<k. case g (trace s @ polls ev sleep i @ [ev]) of Inl e \<Rightarrow> exceptions e | Inr x \<Rightarrow> c x)
     \<Longrightarrow> elapsed + k * sleep < timeout
     \<Longrightarrow> TimeoutSampler timeout sleep exceptions func body elapsed s =
         TimeoutSampler timeout sleep exceptions func body (elapsed + k * sleep)
           (s\<lparr>trace := trace s @ polls ev sleep k\<rparr>)"
proof (induction k arbitrary: elapsed s)
  case 0
  then show ?case by simp
next
  case (Suc k)
  let ?s1 = "s\<lparr>trace := trace s @ [ev]\<rparr>"
  let ?s2 = "s\<lparr>trace := trace s @ [ev, Sleep sleep]\<rparr>"
  from Suc.prems(1) have first: "case g (trace s @ [ev]) of Inl e \<Rightarrow> exceptions e | Inr x \<Rightarrow> c x"
    by (auto dest: spec[of _ 0])
  have "sample_once exceptions func body s = (None, ?s1)"
    by (rule sample_once_continue[OF func]) (use first body in \<open>auto split: sum.splits\<close>)
  moreover from Suc.prems(2) sleep have "\<not> (sleep = 0 \<or> timeout \<le> elapsed + sleep)" by simp
  ultimately have step: "TimeoutSampler timeout sleep exceptions func body elapsed s =
      TimeoutSampler timeout sleep exceptions func body (elapsed + sleep) ?s2"
    by (subst TimeoutSampler.simps) (simp add: log_def)
  have rest: "\<forall>i<k. case g (trace ?s2 @ polls ev sleep i @ [ev]) of Inl e \<Rightarrow> exceptions e | Inr x \<Rightarrow> c x"
  proof (intro allI impI)
    fix i assume "i < k"
    with Suc.prems(1) have "case g (trace s @ polls ev sleep (Suc i) @ [ev]) of
        Inl e \<Rightarrow> exceptions e | Inr x \<Rightarrow> c x" by simp
    then show "case g (trace ?s2 @ polls ev sleep i @ [ev]) of Inl e \<Rightarrow> exceptions e | Inr x \<Rightarrow> c x"
      by (simp add: polls_Suc)
  qed
  from Suc.prems(2) have "elapsed + sleep + k * sleep < timeout" by simp
  from Suc.IH[OF rest this] step show ?case
    by (simp add: polls_Suc add.assoc add.commute[of sleep])
qed

lemma TimeoutSampler_stop:
  assumes "sample_once exceptions func body s = (Some r, s1)"
  shows "TimeoutSampler timeout sleep exceptions func body elapsed s = (r, s1)"
  by (subst TimeoutSampler.simps) (simp add: assms)

lemma TimeoutSampler_expire:
  assumes "sample_once exceptions func body s = (None, s1)"
    and "sleep = 0 \<or> timeout \<le> elapsed + sleep"
  shows "TimeoutSampler timeout sleep exceptions func body elapsed s =
           (Inl TimeoutExpiredError, log (Sleep sleep) s1)"
  by (subst TimeoutSampler.simps) (use assms in \<open>simp add: Let_def\<close>)

lemma polls_snoc: "polls ev sleep (Suc k) = polls ev sleep k @ [ev, Sleep sleep]"
  by (induction k) (simp_all add: polls_Suc)

lemma call_eq: "call ev oracle s = (oracle (trace s @ [ev]), s\<lparr>trace := trace s @ [ev]\<rparr>)"
  by (simp add: call_def Let_def)

lemma TimeoutSampler_first:
  assumes func: "\<And>s. func s = (g (trace s @ [ev]), s\<lparr>trace := trace s @ [ev]\<rparr>)"
    and body: "\<And>x s. c x \<Longrightarrow> body x s = (Continue, s)"
    and sleep: "0 < sleep"
    and cont: "\<forall>i<k. case g (trace s @ polls ev sleep i @ [ev]) of
                        Inl e \<Rightarrow> exceptions e | Inr x \<Rightarrow> c x"
    and time: "elapsed + k * sleep < timeout"
    and final: "sample_once exceptions func body (s\<lparr>trace := trace s @ polls ev sleep k\<rparr>)
                  = (Some r, s1)"
  shows "TimeoutSampler timeout sleep exceptions func body elapsed s = (r, s1)"
proof -
  have "TimeoutSampler timeout sleep exceptions func body elapsed s =
      TimeoutSampler timeout sleep exceptions func body (elapsed + k * sleep)
        (s\<lparr>trace := trace s @ polls ev sleep k\<rparr>)"
    using func body sleep cont time by (rule TimeoutSampler_skip)
  also have "\<dots> = (r, s1)"
    using final by (rule TimeoutSampler_stop)
  finally show ?thesis .
qed

lemma TimeoutSampler_exhausted:
  assumes func: "\<And>s. func s = (g (trace s @ [ev]), s\<lparr>trace := trace s @ [ev]\<rparr>)"
    and body: "\<And>x s. c x \<Longrightarrow> body x s = (Continue, s)"
    and sleep: "0 < sleep"
    and cont: "\<forall>i<Suc k. case g (trace s @ polls ev sleep i @ [ev]) of
                        Inl e \<Rightarrow> exceptions e | Inr x \<Rightarrow> c x"
    and time: "elapsed + k * sleep < timeout" "timeout \<le> elapsed + Suc k * sleep"
  shows "TimeoutSampler timeout sleep exceptions func body elapsed s =
           (Inl TimeoutExpiredError, s\<lparr>trace := trace s @ polls ev sleep (Suc k)\<rparr>)"
proof -
  let ?sk = "s\<lparr>trace := trace s @ polls ev sleep k\<rparr>"
  from cont have contk: "\<forall>i<k. case g (trace s @ polls ev sleep i @ [ev]) of
                        Inl e \<Rightarrow> exceptions e | Inr x \<Rightarrow> c x" by simp
  from cont have last: "case g (trace s @ polls ev sleep k @ [ev]) of
                        Inl e \<Rightarrow> exceptions e | Inr x \<Rightarrow> c x" by simp
  have so: "sample_once exceptions func body ?sk = (None, ?sk\<lparr>trace := trace ?sk @ [ev]\<rparr>)"
    by (rule sample_once_continue[OF func]) (use last body in \<open>auto split: sum.splits\<close>)
  have "TimeoutSampler timeout sleep exceptions func body elapsed s =
      TimeoutSampler timeout sleep exceptions func body (elapsed + k * sleep) ?sk"
    using func body sleep contk time(1) by (rule TimeoutSampler_skip)
  also have "\<dots> = (Inl TimeoutExpiredError, log (Sleep sleep) (?sk\<lparr>trace := trace ?sk @ [ev]\<rparr>))"
    using so by (rule TimeoutSampler_expire) (use time(2) in simp)
  also have "log (Sleep sleep) (?sk\<lparr>trace := trace ?sk @ [ev]\<rparr>)
      = s\<lparr>trace := trace s @ polls ev sleep (Suc k)\<rparr>"
    by (simp add: log_def polls_snoc)
  finally show ?thesis .
qed

lemma update_sampler_first:
  assumes k: "k < 3"
    and conflicts: "\<forall>i<k. ext_update env (trace s1 @ polls (Update resource) 1 i @ [Update resource])
                      = Inl ConflictError"
    and r: "ext_update env (trace s1 @ polls (Update resource) 1 k @ [Update resource]) = r"
    and nc: "r \<noteq> Inl ConflictError"
  shows "TimeoutSampler 3 1 (\<lambda>e. e = ConflictError) (call (Update resource) (ext_update env))
           (\<lambda>sample s'. (Return (), s')) 0 s1
         = (r, s1\<lparr>trace := trace s1 @ polls (Update resource) 1 k @ [Update resource]\<rparr>)"
proof (rule TimeoutSampler_first[where g = "ext_update env" and c = "\<lambda>x. False"
          and ev = "Update resource" and k = k])
  show "\<And>s. call (Update resource) (ext_update env) s
          = (ext_update env (trace s @ [Update resource]), s\<lparr>trace := trace s @ [Update resource]\<rparr>)"
    by (rule call_eq)
  show "\<forall>i<k. case ext_update env (trace s1 @ polls (Update resource) 1 i @ [Update resource]) of
           Inl e \<Rightarrow> e = ConflictError | Inr x \<Rightarrow> False"
    using conflicts by simp
  show "0 + k * 1 < (3::nat)" using k by simp
  show "sample_once (\<lambda>e. e = ConflictError) (call (Update resource) (ext_update env))
          (\<lambda>sample s'. (Return (), s')) (s1\<lparr>trace := trace s1 @ polls (Update resource) 1 k\<rparr>)
        = (Some r, s1\<lparr>trace := trace s1 @ polls (Update resource) 1 k @ [Update resource]\<rparr>)"
    using r nc by (cases r) (simp_all add: sample_once_def call_eq)
qed simp_all

lemma update_sampler_expires:
  assumes conflicts: "\<forall>i<3. ext_update env (trace s1 @ polls (Update resource) 1 i @ [Update resource])
                      = Inl ConflictError"
  shows "TimeoutSampler 3 1 (\<lambda>e. e = ConflictError) (call (Update resource) (ext_update env))
           (\<lambda>sample s'. (Return (), s')) 0 s1
         = (Inl TimeoutExpiredError, s1\<lparr>trace := trace s1 @ polls (Update resource) 1 3\<rparr>)"
proof -
  have "TimeoutSampler 3 1 (\<lambda>e. e = ConflictError) (call (Update resource) (ext_update env))
           (\<lambda>sample s'. (Return (), s')) 0 s1
         = (Inl TimeoutExpiredError, s1\<lparr>trace := trace s1 @ polls (Update resource) 1 (Suc 2)\<rparr>)"
  proof (rule TimeoutSampler_exhausted[where g = "ext_update env" and c = "\<lambda>x. False"])
    show "\<And>s. call (Update resource) (ext_update env) s
          = (ext_update env (trace s @ [Update resource]), s\<lparr>trace := trace s @ [Update resource]\<rparr>)"
      by (rule call_eq)
    show "\<forall>i<Suc 2. case ext_update env (trace s1 @ polls (Update resource) 1 i @ [Update resource]) of
           Inl e \<Rightarrow> e = ConflictError | Inr x \<Rightarrow> False"
      using conflicts by (simp add: eval_nat_numeral)
  qed simp_all
  then show ?thesis by (simp add: eval_nat_numeral)
qed

text \<open>
  C6 (with \<^verbatim>\<open>TimeoutSampler\<close> as modelled from the spec). \<^verbatim>\<open>apply\<close> builds the document with
  \<^verbatim>\<open>to_dict\<close>; if that raises, the error leaves \<^verbatim>\<open>apply\<close> and nothing is sent. Otherwise the
  document is sent with \<^verbatim>\<open>update\<close> at logical times 0, 1 and 2: the first answer that is
  not \<^verbatim>\<open>ConflictError\<close> (a success or any other error) is the outcome of \<^verbatim>\<open>apply\<close> and
  nothing is sent after it; three conflicts in a row end in \<^verbatim>\<open>TimeoutExpiredError\<close>.
  \<open>polls ev sleep k\<close> is the history of \<open>k\<close> polls that were each followed by a sleep.
\<close>

theorem apply_retries_only_on_conflict:
  "(to_dict s = (Inl e, s1) \<longrightarrow> nncp_apply env s = (Inl e, s1))
   \<and> (to_dict s = (Inr resource, s1) \<and> k < 3
        \<and> (\<forall>i<k. ext_update env (trace s1 @ polls (Update resource) 1 i @ [Update resource])
                   = Inl ConflictError)
        \<and> ext_update env (trace s1 @ polls (Update resource) 1 k @ [Update resource]) = r
        \<and> r \<noteq> Inl ConflictError
      \<longrightarrow> nncp_apply env s
            = (r, s1\<lparr>trace := trace s1 @ polls (Update resource) 1 k @ [Update resource]\<rparr>))
   \<and> (to_dict s = (Inr resource, s1)
        \<and> (\<forall>i<3. ext_update env (trace s1 @ polls (Update resource) 1 i @ [Update resource])
                   = Inl ConflictError)
      \<longrightarrow> nncp_apply env s
            = (Inl TimeoutExpiredError, s1\<lparr>trace := trace s1 @ polls (Update resource) 1 3\<rparr>))"
proof (intro conjI impI)
  assume "to_dict s = (Inl e, s1)"
  then show "nncp_apply env s = (Inl e, s1)" by (simp add: nncp_apply_def)
next
  assume a: "to_dict s = (Inr resource, s1) \<and> k < 3
        \<and> (\<forall>i<k. ext_update env (trace s1 @ polls (Update resource) 1 i @ [Update resource])
                   = Inl ConflictError)
        \<and> ext_update env (trace s1 @ polls (Update resource) 1 k @ [Update resource]) = r
        \<and> r \<noteq> Inl ConflictError"
  then have "nncp_apply env s = TimeoutSampler 3 1 (\<lambda>e. e = ConflictError)
      (call (Update resource) (ext_update env)) (\<lambda>sample s'. (Return (), s')) 0 s1"
    by (simp add: nncp_apply_def)
  with a update_sampler_first[of k env s1 resource r]
  show "nncp_apply env s
      = (r, s1\<lparr>trace := trace s1 @ polls (Update resource) 1 k @ [Update resource]\<rparr>)"
    by simp
next
  assume a: "to_dict s = (Inr resource, s1)
        \<and> (\<forall>i<3. ext_update env (trace s1 @ polls (Update resource) 1 i @ [Update resource])
                   = Inl ConflictError)"
  then have "nncp_apply env s = TimeoutSampler 3 1 (\<lambda>e. e = ConflictError)
      (call (Update resource) (ext_update env)) (\<lambda>sample s'. (Return (), s')) 0 s1"
    by (simp add: nncp_apply_def)
  with a update_sampler_expires[of env s1 resource]
  show "nncp_apply env s
      = (Inl TimeoutExpiredError, s1\<lparr>trace := trace s1 @ polls (Update resource) 1 3\<rparr>)"
    by simp
qed

lemma to_dict_demo_static:
  "\<exists>resource s1. to_dict demo_static = (Inr resource, s1) \<and> trace s1 = []"
  by (simp add: to_dict_def demo_static_def demo_policy_def Let_def remember_iface_def
      set_interface_def write_protocols_def)

theorem apply_retries_only_on_conflict_witness:
  "\<exists>resource s1. to_dict demo_static = (Inr resource, s1)
     \<and> nncp_apply (demo_env\<lparr>ext_update := (\<lambda>h. if length h < 3 then Inl ConflictError else Inr ())\<rparr>)
         demo_static
       = (Inr (), s1\<lparr>trace := [Update resource, Sleep 1, Update resource]\<rparr>)
     \<and> nncp_apply (demo_env\<lparr>ext_update := (\<lambda>h. Inl (OtherError ''forbidden''))\<rparr>) demo_static
       = (Inl (OtherError ''forbidden''), s1\<lparr>trace := [Update resource]\<rparr>)
     \<and> nncp_apply (demo_env\<lparr>ext_update := (\<lambda>h. Inl ConflictError)\<rparr>) demo_static
       = (Inl TimeoutExpiredError,
          s1\<lparr>trace := [Update resource, Sleep 1, Update resource, Sleep 1, Update resource, Sleep 1]\<rparr>)"
proof -
  from to_dict_demo_static obtain resource s1
    where t: "to_dict demo_static = (Inr resource, s1)" and tr: "trace s1 = []" by blast
  have a: "nncp_apply (demo_env\<lparr>ext_update := (\<lambda>h. if length h < 3 then Inl ConflictError else Inr ())\<rparr>)
         demo_static
       = (Inr (), s1\<lparr>trace := [Update resource, Sleep 1, Update resource]\<rparr>)"
    using apply_retries_only_on_conflict[of demo_static _ s1
        "demo_env\<lparr>ext_update := (\<lambda>h. if length h < 3 then Inl ConflictError else Inr ())\<rparr>"
        resource 1 "Inr ()"] t tr
    by (simp add: polls_def)
  have b: "nncp_apply (demo_env\<lparr>ext_update := (\<lambda>h. Inl (OtherError ''forbidden''))\<rparr>) demo_static
       = (Inl (OtherError ''forbidden''), s1\<lparr>trace := [Update resource]\<rparr>)"
    using apply_retries_only_on_conflict[of demo_static _ s1
        "demo_env\<lparr>ext_update := (\<lambda>h. Inl (OtherError ''forbidden''))\<rparr>"
        resource 0 "Inl (OtherError ''forbidden'')"] t tr
    by (simp add: polls_def)
  have c: "nncp_apply (demo_env\<lparr>ext_update := (\<lambda>h. Inl ConflictError)\<rparr>) demo_static
       = (Inl TimeoutExpiredError,
          s1\<lparr>trace := [Update resource, Sleep 1, Update resource, Sleep 1, Update resource, Sleep 1]\<rparr>)"
    using apply_retries_only_on_conflict[of demo_static _ s1
        "demo_env\<lparr>ext_update := (\<lambda>h. Inl ConflictError)\<rparr>" resource]  t tr
    by (simp add: polls_def eval_nat_numeral)
  from t a b c show ?thesis by blast
qed

section \<open>Properties of the status watcher\<close>

definition available_reason :: "error + condition list option \<Rightarrow> error + string option" where
  "available_reason r =
     (case r of
        Inl e \<Rightarrow> Inl e
      | Inr None \<Rightarrow> Inl TypeError
      | Inr (Some conditions) \<Rightarrow>
          Inr (map_option c_reason (find (\<lambda>c. c_type c = Type_AVAILABLE) conditions)))"

definition has_conditions :: "error + condition list option \<Rightarrow> bool" where
  "has_conditions r = (case r of Inl e \<Rightarrow> False | Inr x \<Rightarrow> truthy_list x)"

lemma status_eq:
  "status env s = (available_reason (ext_conditions env (trace s @ [GetConditions])),
                   s\<lparr>trace := trace s @ [GetConditions]\<rparr>)"
  by (simp add: status_def call_eq available_reason_def split: sum.splits option.splits)

lemma wait_for_conditions_first:
  assumes j: "j < 30"
    and none: "\<forall>i<j. \<not> has_conditions (ext_conditions env (trace s @ polls GetConditions 1 i @ [GetConditions]))"
    and some: "has_conditions (ext_conditions env (trace s @ polls GetConditions 1 j @ [GetConditions]))"
  shows "wait_for_conditions env s
         = (Inr (), s\<lparr>trace := trace s @ polls GetConditions 1 j @ [GetConditions]\<rparr>)"
  unfolding wait_for_conditions_def
proof (rule TimeoutSampler_first[where g = "ext_conditions env" and c = "\<lambda>x. \<not> truthy_list x"
          and ev = GetConditions and k = j])
  show "\<And>s. call GetConditions (ext_conditions env) s
          = (ext_conditions env (trace s @ [GetConditions]), s\<lparr>trace := trace s @ [GetConditions]\<rparr>)"
    by (rule call_eq)
  show "\<forall>i<j. case ext_conditions env (trace s @ polls GetConditions 1 i @ [GetConditions]) of
           Inl e \<Rightarrow> any_exception e | Inr x \<Rightarrow> \<not> truthy_list x"
    using none by (auto simp: has_conditions_def any_exception_def split: sum.splits)
  show "0 + j * 1 < (30::nat)" using j by simp
  show "sample_once any_exception (call GetConditions (ext_conditions env))
          (\<lambda>sample s'. (if truthy_list sample then Return () else Continue, s'))
          (s\<lparr>trace := trace s @ polls GetConditions 1 j\<rparr>)
        = (Some (Inr ()), s\<lparr>trace := trace s @ polls GetConditions 1 j @ [GetConditions]\<rparr>)"
    using some by (auto simp: sample_once_def call_eq has_conditions_def split: sum.splits)
qed simp_all

lemma wait_for_conditions_never:
  assumes none: "\<forall>i<30. \<not> has_conditions (ext_conditions env (trace s @ polls GetConditions 1 i @ [GetConditions]))"
  shows "wait_for_conditions env s
         = (Inl TimeoutExpiredError, s\<lparr>trace := trace s @ polls GetConditions 1 30\<rparr>)"
proof -
  have "wait_for_conditions env s
         = (Inl TimeoutExpiredError, s\<lparr>trace := trace s @ polls GetConditions 1 (Suc 29)\<rparr>)"
    unfolding wait_for_conditions_def
  proof (rule TimeoutSampler_exhausted[where g = "ext_conditions env"
          and c = "\<lambda>x. \<not> truthy_list x"])
    show "\<And>s. call GetConditions (ext_conditions env) s
          = (ext_conditions env (trace s @ [GetConditions]), s\<lparr>trace := trace s @ [GetConditions]\<rparr>)"
      by (rule call_eq)
    show "\<forall>i<Suc 29. case ext_conditions env (trace s @ polls GetConditions 1 i @ [GetConditions]) of
           Inl e \<Rightarrow> any_exception e | Inr x \<Rightarrow> \<not> truthy_list x"
      using none by (auto simp: has_conditions_def any_exception_def split: sum.splits)
  qed simp_all
  then show ?thesis by simp
qed

lemma status_sampler_first:
  assumes k: "k < 30"
    and pending: "\<forall>i<k. available_reason (ext_conditions env (trace s @ polls GetConditions 1 i @ [GetConditions]))
                    \<noteq> Inr (Some Reason_SUCCESS)
                  \<and> available_reason (ext_conditions env (trace s @ polls GetConditions 1 i @ [GetConditions]))
                    \<noteq> Inr (Some Reason_FAILED)"
    and final: "sample_once any_exception (status env) status_body
                  (s\<lparr>trace := trace s @ polls GetConditions 1 k\<rparr>) = (Some r, s1)"
  shows "TimeoutSampler 30 1 any_exception (status env) status_body 0 s = (r, s1)"
proof (rule TimeoutSampler_first[where g = "\<lambda>h. available_reason (ext_conditions env h)"
          and c = "\<lambda>x. x \<noteq> Some Reason_SUCCESS \<and> x \<noteq> Some Reason_FAILED"
          and ev = GetConditions and k = k])
  show "\<And>s. status env s = (available_reason (ext_conditions env (trace s @ [GetConditions])),
                             s\<lparr>trace := trace s @ [GetConditions]\<rparr>)"
    by (rule status_eq)
  show "\<And>x s. x \<noteq> Some Reason_SUCCESS \<and> x \<noteq> Some Reason_FAILED \<Longrightarrow> status_body x s = (Continue, s)"
    by (simp add: status_body_def)
  show "\<forall>i<k. case available_reason (ext_conditions env (trace s @ polls GetConditions 1 i @ [GetConditions])) of
           Inl e \<Rightarrow> any_exception e
         | Inr x \<Rightarrow> x \<noteq> Some Reason_SUCCESS \<and> x \<noteq> Some Reason_FAILED"
    using pending by (auto simp: any_exception_def split: sum.splits)
  show "0 + k * 1 < (30::nat)" using k by simp
  show "sample_once any_exception (status env) status_body
          (s\<lparr>trace := trace s @ polls GetConditions 1 k\<rparr>) = (Some r, s1)"
    by (rule final)
qed simp_all

lemma success_neq_failed: "Reason_SUCCESS \<noteq> Reason_FAILED"
  by (simp add: Reason_SUCCESS_def Reason_FAILED_def)

text \<open>
  C2 (with \<^verbatim>\<open>TimeoutSampler\<close> as modelled from the spec). \<^verbatim>\<open>wait_for_status_success\<close> first
  polls the conditions until the list is non-empty (poll \<open>j + 1\<close>, within the 30 units of
  \<^verbatim>\<open>wait_for_conditions\<close>), then polls the reason of the Available condition in a window
  of its own. If the first \<open>k\<close> of these polls give neither the success nor the failure
  reason and poll \<open>k + 1\<close> (\<open>k * 1 < 30\<close>) gives \<^verbatim>\<open>SuccessfullyConfigured\<close>, the method
  returns that reason and logs the success; if poll \<open>k + 1\<close> gives \<^verbatim>\<open>FailedToConfigure\<close>, it
  raises \<^verbatim>\<open>NNCPConfigurationFailed\<close> after logging the failure (a probe that always answers
  with the failure reason is the case \<open>j = 0\<close>, \<open>k = 0\<close>). If no condition appears in any of
  the 30 polls of the first window, it raises \<^verbatim>\<open>TimeoutExpiredError\<close> when that window has
  elapsed. \<open>available_reason\<close> is what \<^verbatim>\<open>status\<close> makes of the conditions it reads.
\<close>

theorem wait_for_status_success_outcomes:
  "(j < 30 \<and> k < 30
    \<and> (\<forall>i<j. \<not> has_conditions
                 (ext_conditions env (trace s @ polls GetConditions 1 i @ [GetConditions])))
    \<and> has_conditions (ext_conditions env h1)
    \<and> h1 = trace s @ polls GetConditions 1 j @ [GetConditions]
    \<and> (\<forall>i<k. available_reason (ext_conditions env (h1 @ polls GetConditions 1 i @ [GetConditions]))
                 \<noteq> Inr (Some Reason_SUCCESS)
               \<and> available_reason (ext_conditions env (h1 @ polls GetConditions 1 i @ [GetConditions]))
                 \<noteq> Inr (Some Reason_FAILED))
    \<and> h2 = h1 @ polls GetConditions 1 k @ [GetConditions]
    \<longrightarrow>
      (available_reason (ext_conditions env h2) = Inr (Some Reason_SUCCESS)
         \<longrightarrow> wait_for_status_success env s
               = (Inr (Some Reason_SUCCESS),
                  s\<lparr>trace := h2 @ [LogInfo ''NNCP configured Successfully'']\<rparr>))
      \<and> (available_reason (ext_conditions env h2) = Inr (Some Reason_FAILED)
         \<longrightarrow> wait_for_status_success env s
               = (Inl (NNCPConfigurationFailed ''Reason: FailedToConfigure''),
                  s\<lparr>trace := h2 @ [LogError ''Unable to configure NNCP for node'']\<rparr>)))
   \<and> ((\<forall>i<30. \<not> has_conditions
                   (ext_conditions env (trace s @ polls GetConditions 1 i @ [GetConditions])))
        \<longrightarrow> wait_for_status_success env s
              = (Inl TimeoutExpiredError, s\<lparr>trace := trace s @ polls GetConditions 1 30\<rparr>))"
proof (intro conjI impI)
  assume "\<forall>i<30. \<not> has_conditions
                   (ext_conditions env (trace s @ polls GetConditions 1 i @ [GetConditions]))"
  from wait_for_conditions_never[OF this]
  show "wait_for_status_success env s
          = (Inl TimeoutExpiredError, s\<lparr>trace := trace s @ polls GetConditions 1 30\<rparr>)"
    by (simp add: wait_for_status_success_def)
next
  assume a: "j < 30 \<and> k < 30
    \<and> (\<forall>i<j. \<not> has_conditions
                 (ext_conditions env (trace s @ polls GetConditions 1 i @ [GetConditions])))
    \<and> has_conditions (ext_conditions env h1)
    \<and> h1 = trace s @ polls GetConditions 1 j @ [GetConditions]
    \<and> (\<forall>i<k. available_reason (ext_conditions env (h1 @ polls GetConditions 1 i @ [GetConditions]))
                 \<noteq> Inr (Some Reason_SUCCESS)
               \<and> available_reason (ext_conditions env (h1 @ polls GetConditions 1 i @ [GetConditions]))
                 \<noteq> Inr (Some Reason_FAILED))
    \<and> h2 = h1 @ polls GetConditions 1 k @ [GetConditions]"
  let ?s1 = "s\<lparr>trace := h1\<rparr>"
  from a have j: "j < 30" and k: "k < 30"
    and h1: "h1 = trace s @ polls GetConditions 1 j @ [GetConditions]"
    and none: "\<forall>i<j. \<not> has_conditions
                 (ext_conditions env (trace s @ polls GetConditions 1 i @ [GetConditions]))"
    and some: "has_conditions (ext_conditions env h1)"
    and pend: "\<forall>i<k. available_reason (ext_conditions env (h1 @ polls GetConditions 1 i @ [GetConditions]))
                 \<noteq> Inr (Some Reason_SUCCESS)
               \<and> available_reason (ext_conditions env (h1 @ polls GetConditions 1 i @ [GetConditions]))
                 \<noteq> Inr (Some Reason_FAILED)"
    and h2': "h2 = h1 @ polls GetConditions 1 k @ [GetConditions]"
    by blast+
  have w: "wait_for_conditions env s = (Inr (), ?s1)"
    unfolding h1 by (rule wait_for_conditions_first[OF j none some[unfolded h1]])
  have pending: "\<forall>i<k.
      available_reason (ext_conditions env (trace ?s1 @ polls GetConditions 1 i @ [GetConditions]))
        \<noteq> Inr (Some Reason_SUCCESS)
      \<and> available_reason (ext_conditions env (trace ?s1 @ polls GetConditions 1 i @ [GetConditions]))
        \<noteq> Inr (Some Reason_FAILED)"
    using pend by simp
  have h2: "h2 = trace ?s1 @ polls GetConditions 1 k @ [GetConditions]"
    using h2' by simp
  {
    assume ok: "available_reason (ext_conditions env h2) = Inr (Some Reason_SUCCESS)"
    have "sample_once any_exception (status env) status_body
            (?s1\<lparr>trace := trace ?s1 @ polls GetConditions 1 k\<rparr>)
          = (Some (Inr (Some Reason_SUCCESS)),
             s\<lparr>trace := h2 @ [LogInfo ''NNCP configured Successfully'']\<rparr>)"
      using ok h2 by (simp add: sample_once_def status_eq status_body_def log_def)
    from status_sampler_first[OF k pending this] w
    show "wait_for_status_success env s
               = (Inr (Some Reason_SUCCESS),
                  s\<lparr>trace := h2 @ [LogInfo ''NNCP configured Successfully'']\<rparr>)"
      by (simp add: wait_for_status_success_def)
  }
  {
    assume bad: "available_reason (ext_conditions env h2) = Inr (Some Reason_FAILED)"
    have "sample_once any_exception (status env) status_body
            (?s1\<lparr>trace := trace ?s1 @ polls GetConditions 1 k\<rparr>)
          = (Some (Inl (NNCPConfigurationFailed ''Reason: FailedToConfigure'')), s\<lparr>trace := h2\<rparr>)"
      using bad h2 success_neq_failed
      by (simp add: sample_once_def status_eq status_body_def Reason_FAILED_def)
    from status_sampler_first[OF k pending this] w
    show "wait_for_status_success env s
               = (Inl (NNCPConfigurationFailed ''Reason: FailedToConfigure''),
                  s\<lparr>trace := h2 @ [LogError ''Unable to configure NNCP for node'']\<rparr>)"
      by (simp add: wait_for_status_success_def is_NNCPConfigurationFailed_def log_def)
  }
qed

theorem wait_for_status_success_outcomes_witness:
  "wait_for_status_success (demo_env\<lparr>ext_conditions := slow_success\<rparr>) demo_policy
     = (Inr (Some ''SuccessfullyConfigured''),
        demo_policy\<lparr>trace := [GetConditions, Sleep 1, GetConditions, Sleep 1, GetConditions,
                                GetConditions, Sleep 1, GetConditions, Sleep 1, GetConditions,
                                LogInfo ''NNCP configured Successfully'']\<rparr>)
   \<and> wait_for_status_success (demo_env\<lparr>ext_conditions := always_failed\<rparr>) demo_policy
     = (Inl (NNCPConfigurationFailed ''Reason: FailedToConfigure''),
        demo_policy\<lparr>trace := [GetConditions, GetConditions,
                                LogError ''Unable to configure NNCP for node'']\<rparr>)
   \<and> wait_for_status_success (demo_env\<lparr>ext_conditions := (\<lambda>h. Inr None)\<rparr>) demo_policy
     = (Inl TimeoutExpiredError, demo_policy\<lparr>trace := polls GetConditions 1 30\<rparr>)"
proof (intro conjI)
  show "wait_for_status_success (demo_env\<lparr>ext_conditions := slow_success\<rparr>) demo_policy
     = (Inr (Some ''SuccessfullyConfigured''),
        demo_policy\<lparr>trace := [GetConditions, Sleep 1, GetConditions, Sleep 1, GetConditions,
                                GetConditions, Sleep 1, GetConditions, Sleep 1, GetConditions,
                                LogInfo ''NNCP configured Successfully'']\<rparr>)"
    using wait_for_status_success_outcomes[of 2 2 "demo_env\<lparr>ext_conditions := slow_success\<rparr>"
        demo_policy
        "[GetConditions, Sleep 1, GetConditions, Sleep 1, GetConditions]"
        "[GetConditions, Sleep 1, GetConditions, Sleep 1, GetConditions,
          GetConditions, Sleep 1, GetConditions, Sleep 1, GetConditions]"]
    by (simp add: polls_def has_conditions_def available_reason_def truthy_list_def
        slow_success_def demo_policy_def Type_AVAILABLE_def Reason_SUCCESS_def Reason_FAILED_def
        eval_nat_numeral All_less_Suc)
next
  show "wait_for_status_success (demo_env\<lparr>ext_conditions := always_failed\<rparr>) demo_policy
     = (Inl (NNCPConfigurationFailed ''Reason: FailedToConfigure''),
        demo_policy\<lparr>trace := [GetConditions, GetConditions,
                                LogError ''Unable to configure NNCP for node'']\<rparr>)"
    using wait_for_status_success_outcomes[of 0 0 "demo_env\<lparr>ext_conditions := always_failed\<rparr>"
        demo_policy "[GetConditions]" "[GetConditions, GetConditions]"]
    by (simp add: has_conditions_def available_reason_def truthy_list_def
        always_failed_def demo_policy_def Type_AVAILABLE_def Reason_SUCCESS_def Reason_FAILED_def)
next
  show "wait_for_status_success (demo_env\<lparr>ext_conditions := (\<lambda>h. Inr None)\<rparr>) demo_policy
     = (Inl TimeoutExpiredError, demo_policy\<lparr>trace := polls GetConditions 1 30\<rparr>)"
    using wait_for_status_success_outcomes[of _ _ "demo_env\<lparr>ext_conditions := (\<lambda>h. Inr None)\<rparr>"
        demo_policy]
    by (simp add: has_conditions_def truthy_list_def demo_policy_def)
qed

section \<open>Properties of the clean-up\<close>

text \<open>The definitions that \<open>simp\<close> unfolds to run \<^verbatim>\<open>clean_up\<close> on a concrete object.\<close>

lemmas eval_defs =
  clean_up_def clean_up_loop.simps try_absent_def absent_and_wait_def absent_interface_def
  absent_bridge_def mark_absent_def set_interface_def nncp_apply_def to_dict_def
  write_protocols_def remember_iface_def document_def wait_for_interface_deleted_def
  call_def log_def truthy_int_def Let_def TimeoutSampler.simps sample_once_def
  State_ABSENT_def

text \<open>
  C1. The code at the interfaces \<^verbatim>\<open>[eth0, br1]\<close> with \<^verbatim>\<open>node_active_nics = ["eth0"]\<close> and an
  environment in which every call succeeds: the loop of \<^verbatim>\<open>clean_up\<close> skips \<^verbatim>\<open>eth0\<close>, but for
  \<^verbatim>\<open>br1\<close> it calls \<^verbatim>\<open>_absent_interface\<close>, which marks every interface of \<^verbatim>\<open>self.ifaces\<close>. The
  document sent with \<^verbatim>\<open>update\<close> and the final desired state have \<^verbatim>\<open>eth0\<close> in state
  \<^verbatim>\<open>absent\<close>, and the deletion of \<^verbatim>\<open>eth0\<close> is waited for.
\<close>

theorem clean_up_marks_active_nic_absent:
  "\<exists>s' d. clean_up demo_env demo_nic = (Inr (), s')
     \<and> map (\<lambda>i. (if_name (heap s' ! i), if_state (heap s' ! i))) (desired_state s')
         = [(''eth0'', Some ''absent''), (''br1'', Some ''absent'')]
     \<and> map (\<lambda>x. (if_name x, if_state x)) (spec_desiredState d)
         = [(''eth0'', Some ''absent''), (''br1'', Some ''absent'')]
     \<and> trace s' = [Update d, WaitUntilDeleted ''node1'' ''eth0'',
                    WaitUntilDeleted ''node1'' ''br1'', Delete]"
  by (simp add: eval_defs demo_nic_def demo_policy_def demo_env_def demo_heap_def)

lemma try_absent_no_timeout: "try_absent env s = (Inl e, s') \<Longrightarrow> e \<noteq> TimeoutExpiredError"
  by (auto simp: try_absent_def split: prod.splits sum.splits if_splits)

lemma clean_up_loop_no_timeout:
  "clean_up_loop env i s = (Inl e, s') \<Longrightarrow> e \<noteq> TimeoutExpiredError"
proof (induction env i s rule: clean_up_loop.induct)
  case (1 env i s)
  show ?case
  proof (cases "i < length (ifaces s)")
    case False
    with "1.prems" show ?thesis by (simp add: clean_up_loop.simps)
  next
    case True
    show ?thesis
    proof (cases "if_name (heap s ! (ifaces s ! i)) \<in> set (node_active_nics s)")
      case active: True
      with True "1.prems" have "clean_up_loop env (Suc i) s = (Inl e, s')"
        by (simp add: clean_up_loop.simps[of env i s])
      from "1.IH"(1)[OF True active this] show ?thesis .
    next
      case inactive: False
      obtain r1 s1 where t: "try_absent env s = (r1, s1)" by (cases "try_absent env s")
      show ?thesis
      proof (cases r1)
        case (Inl e1)
        with True inactive t "1.prems" have "e = e1"
          by (simp add: clean_up_loop.simps[of env i s])
        with t Inl try_absent_no_timeout show ?thesis by blast
      next
        case (Inr u)
        with True inactive t "1.prems" have "clean_up_loop env (Suc i) s1 = (Inl e, s')"
          by (simp add: clean_up_loop.simps[of env i s])
        from "1.IH"(2)[OF True inactive t[symmetric] Inr this] show ?thesis .
      qed
    qed
  qed
qed

lemma restore_mtu_no_timeout:
  "for_each (restore_mtu env) ps s = (Inl e, s') \<Longrightarrow> e \<noteq> TimeoutExpiredError"
proof (induction ps arbitrary: s)
  case Nil
  then show ?case by simp
next
  case (Cons p ps)
  obtain r1 s1 where b: "restore_mtu env p s = (r1, s1)" by (cases "restore_mtu env p s")
  show ?case
  proof (cases r1)
    case (Inl e1)
    with b Cons.prems have "e = e1" by simp
    moreover from b Inl have "e1 = KeyError \<or> e1 = ValueError"
      by (auto simp: restore_mtu_def split: option.splits prod.splits)
    ultimately show ?thesis by auto
  next
    case (Inr u)
    with b Cons.prems have "for_each (restore_mtu env) ps s1 = (Inl e, s')" by simp
    then show ?thesis by (rule Cons.IH)
  qed
qed

text \<open>
  C8. When, for an interface that is not an active NIC, \<^verbatim>\<open>_absent_interface\<close> returns and
  \<^verbatim>\<open>wait_for_interface_deleted\<close> raises \<^verbatim>\<open>TimeoutExpiredError\<close>, the loop of \<^verbatim>\<open>clean_up\<close> logs
  the error and goes on with the next interface. No \<^verbatim>\<open>TimeoutExpiredError\<close> leaves the loop.
  So \<^verbatim>\<open>clean_up\<close> either is ended by an error that is not a timeout, or it calls \<^verbatim>\<open>delete\<close>
  as its last action and ends as \<^verbatim>\<open>delete\<close> does.
\<close>

theorem clean_up_survives_timeouts:
  "(i < length (ifaces s) \<and> if_name (heap s ! (ifaces s ! i)) \<notin> set (node_active_nics s)
      \<and> absent_interface env s = (Inr (), s1)
      \<and> wait_for_interface_deleted env s1 = (Inl TimeoutExpiredError, s2)
      \<longrightarrow> clean_up_loop env i s
            = clean_up_loop env (Suc i) (log (LogException TimeoutExpiredError) s2))
   \<and> (clean_up_loop env i s = (Inl e, s') \<longrightarrow> e \<noteq> TimeoutExpiredError)
   \<and> (clean_up env s = (r, s') \<longrightarrow>
        (\<exists>e. r = Inl e \<and> e \<noteq> TimeoutExpiredError)
        \<or> (trace s' \<noteq> [] \<and> last (trace s') = Delete \<and> r = ext_delete env (trace s')))"
proof (intro conjI impI)
  assume "i < length (ifaces s) \<and> if_name (heap s ! (ifaces s ! i)) \<notin> set (node_active_nics s)
      \<and> absent_interface env s = (Inr (), s1)
      \<and> wait_for_interface_deleted env s1 = (Inl TimeoutExpiredError, s2)"
  then show "clean_up_loop env i s
            = clean_up_loop env (Suc i) (log (LogException TimeoutExpiredError) s2)"
    by (simp add: clean_up_loop.simps[of env i s] try_absent_def absent_and_wait_def)
next
  assume "clean_up_loop env i s = (Inl e, s')"
  then show "e \<noteq> TimeoutExpiredError" by (rule clean_up_loop_no_timeout)
next
  assume c: "clean_up env s = (r, s')"
  obtain r1 s1 where m: "(if truthy_int (mtu s) then for_each (restore_mtu env) (ports s) s
                          else (Inr (), s)) = (r1, s1)"
    by (cases "if truthy_int (mtu s) then for_each (restore_mtu env) (ports s) s else (Inr (), s)")
  show "(\<exists>e. r = Inl e \<and> e \<noteq> TimeoutExpiredError)
        \<or> (trace s' \<noteq> [] \<and> last (trace s') = Delete \<and> r = ext_delete env (trace s'))"
  proof (cases r1)
    case (Inl e1)
    with m have "e1 \<noteq> TimeoutExpiredError"
      by (auto split: if_splits dest: restore_mtu_no_timeout)
    moreover from c m Inl have "r = Inl e1" by (simp add: clean_up_def)
    ultimately show ?thesis by simp
  next
    case (Inr u)
    obtain r2 s2 where l: "clean_up_loop env 0 s1 = (r2, s2)" by (cases "clean_up_loop env 0 s1")
    show ?thesis
    proof (cases r2)
      case (Inl e2)
      with l have "e2 \<noteq> TimeoutExpiredError" by (auto dest: clean_up_loop_no_timeout)
      moreover from c m Inr l Inl have "r = Inl e2" by (simp add: clean_up_def)
      ultimately show ?thesis by simp
    next
      case r2: (Inr u2)
      with c m Inr l have "call Delete (ext_delete env) s2 = (r, s')" by (simp add: clean_up_def)
      then show ?thesis by (auto simp: call_eq)
    qed
  qed
qed

theorem clean_up_survives_timeouts_witness:
  "\<exists>s1 s2 s'.
     0 < length (ifaces demo_pair)
     \<and> if_name (heap demo_pair ! (ifaces demo_pair ! 0)) \<notin> set (node_active_nics demo_pair)
     \<and> absent_interface stuck_env demo_pair = (Inr (), s1)
     \<and> wait_for_interface_deleted stuck_env s1 = (Inl TimeoutExpiredError, s2)
     \<and> clean_up_loop stuck_env 0 demo_pair
         = clean_up_loop stuck_env (Suc 0) (log (LogException TimeoutExpiredError) s2)
     \<and> clean_up stuck_env demo_pair = (Inr (), s')
     \<and> last (trace s') = Delete
     \<and> filter (\<lambda>ev. ev = LogException TimeoutExpiredError \<or> ev = Delete) (trace s')
         = [LogException TimeoutExpiredError, LogException TimeoutExpiredError, Delete]"
proof -
  obtain s1 where a: "absent_interface stuck_env demo_pair = (Inr (), s1)"
    by (simp add: eval_defs demo_pair_def stuck_env_def demo_policy_def demo_env_def demo_heap_def)
  obtain s2 where w: "wait_for_interface_deleted stuck_env s1 = (Inl TimeoutExpiredError, s2)"
    using a
    by (auto simp add: eval_defs demo_pair_def stuck_env_def demo_policy_def demo_env_def
        demo_heap_def)
  have pre: "0 < length (ifaces demo_pair)"
    "if_name (heap demo_pair ! (ifaces demo_pair ! 0)) \<notin> set (node_active_nics demo_pair)"
    by (simp_all add: demo_pair_def demo_policy_def demo_heap_def)
  obtain s' where c: "clean_up stuck_env demo_pair = (Inr (), s')"
    and f: "filter (\<lambda>ev. ev = LogException TimeoutExpiredError \<or> ev = Delete) (trace s')
         = [LogException TimeoutExpiredError, LogException TimeoutExpiredError, Delete]"
    by (simp add: eval_defs demo_pair_def stuck_env_def demo_policy_def demo_env_def demo_heap_def)
  from clean_up_survives_timeouts[of 0 demo_pair stuck_env s1 s2 _ s' "Inr ()"] pre a w c
  have "clean_up_loop stuck_env 0 demo_pair
         = clean_up_loop stuck_env (Suc 0) (log (LogException TimeoutExpiredError) s2)"
    and "last (trace s') = Delete"
    by simp_all
  with pre a w c f show ?thesis by blast
qed

section \<open>Properties of the managed scope\<close>

text \<open>No method removes events: the history after a call extends the history before.\<close>

definition extends :: "nncp \<Rightarrow> nncp \<Rightarrow> bool" where
  "extends s s' = (\<exists>h. trace s' = trace s @ h)"

lemma extends_refl [simp]: "extends s s"
  by (simp add: extends_def)

lemma extends_trans: "extends s s1 \<Longrightarrow> extends s1 s2 \<Longrightarrow> extends s s2"
  by (auto simp: extends_def)

lemma extends_same_trace: "trace s' = trace s \<Longrightarrow> extends s s'"
  by (simp add: extends_def)

lemma extends_left: "trace s1 = trace s \<Longrightarrow> extends s1 s2 \<Longrightarrow> extends s s2"
  by (simp add: extends_def)

lemma extends_call: "call ev oracle s = (r, s') \<Longrightarrow> extends s s'"
  by (auto simp: call_eq extends_def)

lemma extends_log [simp]: "extends s (log ev s)"
  by (simp add: log_def extends_def)

lemma trace_set_interface [simp]: "trace (set_interface a s) = trace s"
  by (simp add: set_interface_def Let_def)

lemma trace_mark_absent [simp]: "trace (mark_absent a s) = trace s"
  by (simp add: mark_absent_def)

lemma trace_write_protocols [simp]: "trace (write_protocols a s) = trace s"
  by (simp add: write_protocols_def Let_def)

lemma trace_remember_iface [simp]: "trace (remember_iface a s) = trace s"
  by (simp add: remember_iface_def)

lemma extends_for_each:
  assumes "\<And>x s r s'. body x s = (r, s') \<Longrightarrow> extends s s'"
  shows "for_each body xs s = (r, s') \<Longrightarrow> extends s s'"
proof (induction xs arbitrary: s)
  case Nil
  then show ?case by simp
next
  case (Cons x xs)
  obtain r1 s1 where b: "body x s = (r1, s1)" by (cases "body x s")
  show ?case
  proof (cases r1)
    case (Inl e)
    with Cons.prems b assms[OF b] show ?thesis by simp
  next
    case (Inr u)
    with Cons.prems b have "for_each body xs s1 = (r, s')" by simp
    from extends_trans[OF assms[OF b] Cons.IH[OF this]] show ?thesis .
  qed
qed

lemma extends_sample_once:
  assumes "\<And>s r s'. func s = (r, s') \<Longrightarrow> extends s s'"
    and "\<And>x s r s'. body x s = (r, s') \<Longrightarrow> extends s s'"
    and "sample_once exceptions func body s = (r, s')"
  shows "extends s s'"
proof -
  obtain r1 s1 where f: "func s = (r1, s1)" by (cases "func s")
  from assms(1)[OF f] have e1: "extends s s1" .
  show ?thesis
  proof (cases r1)
    case (Inl e)
    with assms(3) f e1 show ?thesis by (simp add: sample_once_def split: if_splits)
  next
    case (Inr x)
    obtain r2 s2 where b: "body x s1 = (r2, s2)" by (cases "body x s1")
    from assms(2)[OF b] e1 have "extends s s2" by (blast intro: extends_trans)
    moreover from assms(3) f Inr b have "s' = s2"
      by (cases r2) (simp_all add: sample_once_def)
    ultimately show ?thesis by simp
  qed
qed

lemma extends_TimeoutSampler:
  assumes f: "\<And>s r s'. func s = (r, s') \<Longrightarrow> extends s s'"
    and b: "\<And>x s r s'. body x s = (r, s') \<Longrightarrow> extends s s'"
  shows "TimeoutSampler timeout sleep exceptions func body elapsed s = (r, s') \<Longrightarrow> extends s s'"
  using f b
proof (induction timeout sleep exceptions func body elapsed s rule: TimeoutSampler.induct)
  case (1 timeout sleep exceptions func body elapsed s)
  obtain o1 s1 where so: "sample_once exceptions func body s = (o1, s1)"
    by (cases "sample_once exceptions func body s")
  have s1: "extends s s1"
    using extends_sample_once[OF _ _ so] "1.prems"(2,3) by blast
  show ?case
  proof (cases o1)
    case (Some x)
    with "1.prems"(1) so s1 show ?thesis
      by (simp add: TimeoutSampler.simps[of timeout sleep exceptions func body elapsed s])
  next
    case None
    show ?thesis
    proof (cases "sleep = 0 \<or> timeout \<le> elapsed + sleep")
      case True
      with "1.prems"(1) so None have "s' = log (Sleep sleep) s1"
        by (auto simp add: TimeoutSampler.simps[of timeout sleep exceptions func body elapsed s] Let_def)
      with s1 show ?thesis by (auto intro: extends_trans)
    next
      case False
      with "1.prems"(1) so None
      have "TimeoutSampler timeout sleep exceptions func body (elapsed + sleep) (log (Sleep sleep) s1) = (r, s')"
        by (auto simp add: TimeoutSampler.simps[of timeout sleep exceptions func body elapsed s] Let_def)
      from "1.IH"[OF so[symmetric] None refl False this "1.prems"(2,3)]
      have "extends (log (Sleep sleep) s1) s'" .
      with s1 show ?thesis by (blast intro: extends_trans extends_log)
    qed
  qed
qed

lemma trace_to_dict: "to_dict s = (r, s') \<Longrightarrow> trace s' = trace s"
  by (auto simp: to_dict_def Let_def split: option.splits)

lemma extends_nncp_apply:
  assumes "nncp_apply env s = (r, s')"
  shows "extends s s'"
proof -
  obtain r1 s1 where t: "to_dict s = (r1, s1)" by (cases "to_dict s")
  from trace_to_dict[OF t] have t1: "trace s1 = trace s" .
  show ?thesis
  proof (cases r1)
    case (Inl e)
    with assms t t1 show ?thesis by (simp add: nncp_apply_def extends_same_trace)
  next
    case (Inr resource)
    with assms t have
      "TimeoutSampler 3 1 (\<lambda>e. e = ConflictError) (call (Update resource) (ext_update env))
         (\<lambda>sample s'. (Return (), s')) 0 s1 = (r, s')"
      by (simp add: nncp_apply_def)
    then have "extends s1 s'"
    proof (rule extends_TimeoutSampler[rotated 2])
      show "\<And>s r s'. call (Update resource) (ext_update env) s = (r, s') \<Longrightarrow> extends s s'"
        by (rule extends_call)
      show "\<And>x s r s'. (Return (), s) = (r, s') \<Longrightarrow> extends s s'"
        by auto
    qed
    with t1 show ?thesis by (rule extends_left)
  qed
qed

lemma extends_wait_for_interface_deleted:
  "wait_for_interface_deleted env s = (r, s') \<Longrightarrow> extends s s'"
  unfolding wait_for_interface_deleted_def
  by (auto split: option.splits elim!: extends_for_each[rotated] dest: extends_call)

lemma extends_changed_pods: "changed_pods env pods temp s = (r, s') \<Longrightarrow> extends s s'"
proof (induction pods arbitrary: temp s)
  case Nil
  then show ?case by simp
next
  case (Cons pod pods)
  obtain r1 s1 where c: "call (GetCurrentState (node_name pod)) (ext_current_state env) s = (r1, s1)"
    by (cases "call (GetCurrentState (node_name pod)) (ext_current_state env) s")
  from extends_call[OF c] have s1: "extends s s1" .
  from Cons.prems c s1 show ?case
    by (auto simp: Let_def split: sum.splits dest!: Cons.IH intro: extends_trans)
qed

lemma trace_restore_interface: "restore_interface item s = (r, s') \<Longrightarrow> trace s' = trace s"
  by (auto simp: restore_interface_def new_interface_def)

lemma extends_restore_all: "for_each restore_interface xs s = (r, s') \<Longrightarrow> extends s s'"
  by (rule extends_for_each[OF extends_same_trace[OF trace_restore_interface]])

lemma extends_absent_bridge:
  assumes "absent_bridge env bridge s = (r, s')"
  shows "extends s s'"
proof -
  define s2 where "s2 = set_interface bridge (mark_absent bridge s)"
  have s2: "trace s2 = trace s" by (simp add: s2_def)
  show ?thesis
  proof (cases "priv_ipv4_dhcp s2")
    case False
    with assms have "s' = s2" by (simp add: absent_bridge_def Let_def s2_def)
    with s2 show ?thesis by (simp add: extends_same_trace)
  next
    case True
    show ?thesis
    proof (cases "worker_pods s2")
      case None
      with assms True have "s' = s2" by (simp add: absent_bridge_def Let_def s2_def)
      with s2 show ?thesis by (simp add: extends_same_trace)
    next
      case (Some pods)
      obtain r3 s3 where c: "changed_pods env pods [] s2 = (r3, s3)"
        by (cases "changed_pods env pods [] s2")
      from extends_changed_pods[OF c] s2 have s3: "extends s s3" by (rule extends_left[rotated])
      from assms True Some c
      have "(\<exists>e. r3 = Inl e \<and> s' = s3) \<or> (r3 = Inr [] \<and> s' = s3) \<or>
            (\<exists>first others. r3 = Inr (first # others) \<and>
               for_each restore_interface (snd first) s3 = (r, s'))"
        by (auto simp add: absent_bridge_def Let_def s2_def split: sum.splits list.splits)
      with s3 show ?thesis
        by (auto dest!: extends_restore_all intro: extends_trans)
    qed
  qed
qed

lemma extends_absent_interface:
  assumes "absent_interface env s = (r, s')"
  shows "extends s s'"
proof -
  obtain r1 s1 where l: "for_each (absent_bridge env) (ifaces s) s = (r1, s1)"
    by (cases "for_each (absent_bridge env) (ifaces s) s")
  have s1: "extends s s1"
    by (rule extends_for_each[OF _ l]) (rule extends_absent_bridge)
  from assms l s1 show ?thesis
    by (auto simp: absent_interface_def split: sum.splits dest!: extends_nncp_apply
        intro: extends_trans)
qed

lemma extends_try_absent:
  assumes "try_absent env s = (r, s')"
  shows "extends s s'"
proof -
  obtain r1 s1 where a: "absent_interface env s = (r1, s1)" by (cases "absent_interface env s")
  from extends_absent_interface[OF a] have e1: "extends s s1" .
  obtain r2 s2 where w: "absent_and_wait env s = (r2, s2)" by (cases "absent_and_wait env s")
  have e2: "extends s s2"
  proof (cases r1)
    case (Inl e)
    with w a e1 show ?thesis by (simp add: absent_and_wait_def)
  next
    case (Inr u)
    with w a have "wait_for_interface_deleted env s1 = (r2, s2)" by (simp add: absent_and_wait_def)
    from extends_trans[OF e1 extends_wait_for_interface_deleted[OF this]] show ?thesis .
  qed
  from assms w have "s' = s2 \<or> s' = log (LogException TimeoutExpiredError) s2"
    by (auto simp: try_absent_def split: sum.splits if_splits)
  with e2 show ?thesis by (auto intro: extends_trans)
qed

lemma extends_clean_up_loop: "clean_up_loop env i s = (r, s') \<Longrightarrow> extends s s'"
proof (induction env i s rule: clean_up_loop.induct)
  case (1 env i s)
  show ?case
  proof (cases "i < length (ifaces s)")
    case False
    with "1.prems" show ?thesis by (simp add: clean_up_loop.simps)
  next
    case True
    show ?thesis
    proof (cases "if_name (heap s ! (ifaces s ! i)) \<in> set (node_active_nics s)")
      case active: True
      with True "1.prems" have "clean_up_loop env (Suc i) s = (r, s')"
        by (simp add: clean_up_loop.simps[of env i s])
      from "1.IH"(1)[OF True active this] show ?thesis .
    next
      case inactive: False
      obtain r1 s1 where t: "try_absent env s = (r1, s1)" by (cases "try_absent env s")
      from extends_try_absent[OF t] have e1: "extends s s1" .
      show ?thesis
      proof (cases r1)
        case (Inl e1)
        with True inactive t "1.prems" have "s' = s1"
          by (simp add: clean_up_loop.simps[of env i s])
        with e1 show ?thesis by simp
      next
        case (Inr u)
        with True inactive t "1.prems" have "clean_up_loop env (Suc i) s1 = (r, s')"
          by (simp add: clean_up_loop.simps[of env i s])
        from "1.IH"(2)[OF True inactive t[symmetric] Inr this] e1 show ?thesis
          by (blast intro: extends_trans)
      qed
    qed
  qed
qed

lemma trace_restore_mtu: "restore_mtu env port s = (r, s') \<Longrightarrow> trace s' = trace s"
  by (auto simp: restore_mtu_def new_interface_def split: option.splits)

lemma extends_restore_mtu_all: "for_each (restore_mtu env) ps s = (r, s') \<Longrightarrow> extends s s'"
proof (rule extends_for_each)
  show "\<And>x s r s'. restore_mtu env x s = (r, s') \<Longrightarrow> extends s s'"
    by (rule extends_same_trace[OF trace_restore_mtu])
qed

lemma extends_clean_up:
  assumes "clean_up env s = (r, s')"
  shows "extends s s'"
proof -
  obtain r1 s1 where m: "(if truthy_int (mtu s) then for_each (restore_mtu env) (ports s) s
                          else (Inr (), s)) = (r1, s1)"
    by (cases "if truthy_int (mtu s) then for_each (restore_mtu env) (ports s) s else (Inr (), s)")
  have e1: "extends s s1"
  proof (cases "truthy_int (mtu s)")
    case True
    with m have "for_each (restore_mtu env) (ports s) s = (r1, s1)" by simp
    then show ?thesis
      by (rule extends_restore_mtu_all)
  next
    case False
    with m show ?thesis by simp
  qed
  show ?thesis
  proof (cases r1)
    case (Inl e)
    with assms m e1 show ?thesis by (simp add: clean_up_def)
  next
    case (Inr u)
    obtain r2 s2 where l: "clean_up_loop env 0 s1 = (r2, s2)" by (cases "clean_up_loop env 0 s1")
    from extends_trans[OF e1 extends_clean_up_loop[OF l]] have e2: "extends s s2" .
    show ?thesis
    proof (cases r2)
      case (Inl e)
      with assms m Inr l e2 show ?thesis by (simp add: clean_up_def)
    next
      case r2: (Inr u2)
      with assms m Inr l have "call Delete (ext_delete env) s2 = (r, s')" by (simp add: clean_up_def)
      from extends_trans[OF e2 extends_call[OF this]] show ?thesis .
    qed
  qed
qed

lemma clean_up_returns_after_delete:
  assumes "clean_up env s = (Inr u, s')"
  shows "\<exists>h. trace s' = trace s @ h @ [Delete]"
proof -
  obtain r1 s1 where m: "(if truthy_int (mtu s) then for_each (restore_mtu env) (ports s) s
                          else (Inr (), s)) = (r1, s1)"
    by (cases "if truthy_int (mtu s) then for_each (restore_mtu env) (ports s) s else (Inr (), s)")
  have e1: "extends s s1"
    using m by (auto split: if_splits dest: extends_restore_mtu_all)
  from assms m obtain u1 where r1: "r1 = Inr u1"
    by (cases r1) (simp_all add: clean_up_def)
  obtain r2 s2 where l: "clean_up_loop env 0 s1 = (r2, s2)" by (cases "clean_up_loop env 0 s1")
  from extends_trans[OF e1 extends_clean_up_loop[OF l]] have e2: "extends s s2" .
  from assms m r1 l obtain u2 where r2: "r2 = Inr u2"
    by (cases r2) (simp_all add: clean_up_def)
  from assms m r1 l r2 have "call Delete (ext_delete env) s2 = (Inr u, s')"
    by (simp add: clean_up_def)
  then have "trace s' = trace s2 @ [Delete]" by (auto simp: call_eq)
  with e2 show ?thesis by (auto simp: extends_def)
qed

text \<open>The definitions that \<open>simp\<close> unfolds to run \<^verbatim>\<open>__enter__\<close> on a concrete object.\<close>

lemmas enter_defs =
  enter_setup_def enter_try_def wait_for_status_success_def wait_for_conditions_def status_def
  status_body_def truthy_list_def any_exception_def is_NNCPConfigurationFailed_def
  validate_create_def always_failed_def Type_AVAILABLE_def Reason_SUCCESS_def Reason_FAILED_def

text \<open>
  C5, as amended. An exception raised before the \<^verbatim>\<open>try\<close> of \<^verbatim>\<open>__enter__\<close> (by the DHCP backup,
  the MTU backup or \<^verbatim>\<open>super().__enter__()\<close>) leaves \<^verbatim>\<open>__enter__\<close> as it is, with no clean-up.
  An exception \<open>e\<close> raised inside the \<^verbatim>\<open>try\<close> (by \<^verbatim>\<open>wait_for_status_success\<close> or
  \<^verbatim>\<open>validate_create\<close>) is logged and \<^verbatim>\<open>clean_up\<close> runs: everything \<^verbatim>\<open>clean_up\<close> does comes after
  the log entry; when \<^verbatim>\<open>clean_up\<close> returns, its last call was \<^verbatim>\<open>delete\<close> and \<^verbatim>\<open>__enter__\<close> raises
  \<open>e\<close>; when \<^verbatim>\<open>clean_up\<close> raises, \<^verbatim>\<open>__enter__\<close> raises that exception.
\<close>

theorem enter_failure_clean_up:
  "(enter_setup env s = (Inl e, s1) \<longrightarrow> nncp_enter env s = (Inl e, s1))
   \<and> (enter_setup env s = (Inr (), s1) \<and> enter_try env s1 = (Inl e, s2) \<longrightarrow>
        (\<exists>c s3 h. clean_up env (log (LogException e) s2) = (c, s3)
           \<and> trace s3 = trace s2 @ LogException e # h
           \<and> nncp_enter env s = (Inl (case c of Inl e' \<Rightarrow> e' | Inr u \<Rightarrow> e), s3)
           \<and> (c = Inr () \<longrightarrow> h \<noteq> [] \<and> last h = Delete)))"
proof (intro conjI impI)
  assume "enter_setup env s = (Inl e, s1)"
  then show "nncp_enter env s = (Inl e, s1)" by (simp add: nncp_enter_def)
next
  assume a: "enter_setup env s = (Inr (), s1) \<and> enter_try env s1 = (Inl e, s2)"
  obtain c s3 where c: "clean_up env (log (LogException e) s2) = (c, s3)"
    by (cases "clean_up env (log (LogException e) s2)")
  from extends_clean_up[OF c] obtain h where h: "trace s3 = trace s2 @ LogException e # h"
    by (auto simp: extends_def log_def)
  from a c have n: "nncp_enter env s = (Inl (case c of Inl e' \<Rightarrow> e' | Inr u \<Rightarrow> e), s3)"
    by (cases c) (simp_all add: nncp_enter_def)
  have "c = Inr () \<longrightarrow> h \<noteq> [] \<and> last h = Delete"
  proof
    assume "c = Inr ()"
    with c clean_up_returns_after_delete[of env "log (LogException e) s2" "()" s3] h
    show "h \<noteq> [] \<and> last h = Delete" by (auto simp: log_def)
  qed
  with c h n show "\<exists>c s3 h. clean_up env (log (LogException e) s2) = (c, s3)
           \<and> trace s3 = trace s2 @ LogException e # h
           \<and> nncp_enter env s = (Inl (case c of Inl e' \<Rightarrow> e' | Inr u \<Rightarrow> e), s3)
           \<and> (c = Inr () \<longrightarrow> h \<noteq> [] \<and> last h = Delete)"
    by blast
qed

lemma failing_entry:
  "\<exists>s1 s2 s3 d.
     enter_setup failing_env demo_static = (Inr (), s1)
     \<and> enter_try failing_env s1 = (Inl (NNCPConfigurationFailed ''Reason: FailedToConfigure''), s2)
     \<and> trace s2 = [Enter, GetConditions, GetConditions,
                    LogError ''Unable to configure NNCP for node'']
     \<and> clean_up failing_env
           (log (LogException (NNCPConfigurationFailed ''Reason: FailedToConfigure'')) s2)
         = (Inr (), s3)
     \<and> trace s3 = [Enter, GetConditions, GetConditions,
                    LogError ''Unable to configure NNCP for node'',
                    LogException (NNCPConfigurationFailed ''Reason: FailedToConfigure''),
                    Update d, WaitUntilDeleted ''node1'' ''br1'', Delete]
     \<and> map (\<lambda>x. (if_name x, if_state x)) (spec_desiredState d) = [(''br1'', Some ''absent'')]"
  by (simp add: eval_defs enter_defs failing_env_def demo_static_def demo_policy_def demo_env_def
      demo_heap_def)

theorem enter_failure_clean_up_witness:
  "\<exists>s3 d.
     nncp_enter failing_env demo_static
       = (Inl (NNCPConfigurationFailed ''Reason: FailedToConfigure''), s3)
     \<and> trace s3 = [Enter, GetConditions, GetConditions,
                    LogError ''Unable to configure NNCP for node'',
                    LogException (NNCPConfigurationFailed ''Reason: FailedToConfigure''),
                    Update d, WaitUntilDeleted ''node1'' ''br1'', Delete]
     \<and> map (\<lambda>x. (if_name x, if_state x)) (spec_desiredState d) = [(''br1'', Some ''absent'')]"
proof -
  from failing_entry obtain s1 s2 s3 d where
    su: "enter_setup failing_env demo_static = (Inr (), s1)"
    and tr: "enter_try failing_env s1
               = (Inl (NNCPConfigurationFailed ''Reason: FailedToConfigure''), s2)"
    and cl: "clean_up failing_env
               (log (LogException (NNCPConfigurationFailed ''Reason: FailedToConfigure'')) s2)
             = (Inr (), s3)"
    and t3: "trace s3 = [Enter, GetConditions, GetConditions,
                    LogError ''Unable to configure NNCP for node'',
                    LogException (NNCPConfigurationFailed ''Reason: FailedToConfigure''),
                    Update d, WaitUntilDeleted ''node1'' ''br1'', Delete]"
    and d: "map (\<lambda>x. (if_name x, if_state x)) (spec_desiredState d) = [(''br1'', Some ''absent'')]"
    by (elim exE conjE) (rule that)
  from enter_failure_clean_up[of failing_env demo_static
      "NNCPConfigurationFailed ''Reason: FailedToConfigure''" s1 s2] su tr cl
  have "nncp_enter failing_env demo_static
          = (Inl (NNCPConfigurationFailed ''Reason: FailedToConfigure''), s3)"
    by auto
  show ?thesis
  proof (intro exI conjI)
    show "nncp_enter failing_env demo_static
          = (Inl (NNCPConfigurationFailed ''Reason: FailedToConfigure''), s3)" by fact
    show "trace s3 = [Enter, GetConditions, GetConditions,
                    LogError ''Unable to configure NNCP for node'',
                    LogException (NNCPConfigurationFailed ''Reason: FailedToConfigure''),
                    Update d, WaitUntilDeleted ''node1'' ''br1'', Delete]" by fact
    show "map (\<lambda>x. (if_name x, if_state x)) (spec_desiredState d) = [(''br1'', Some ''absent'')]"
      by fact
  qed
qed

text \<open>
  C5 as stated fails when \<^verbatim>\<open>super().__enter__()\<close> raises: \<^verbatim>\<open>__enter__\<close> raises the error with
  nothing logged and nothing deleted, although a clean-up from that state would have
  called \<^verbatim>\<open>delete\<close>.
\<close>

theorem enter_create_failure_counterexample:
  "nncp_enter create_fails demo_static
     = (Inl (OtherError ''create failed''), demo_static\<lparr>trace := [Enter]\<rparr>)
   \<and> Delete \<notin> set (trace (snd (nncp_enter create_fails demo_static)))
   \<and> LogException (OtherError ''create failed'')
       \<notin> set (trace (snd (nncp_enter create_fails demo_static)))
   \<and> clean_up create_fails
         (log (LogException (OtherError ''create failed'')) (demo_static\<lparr>trace := [Enter]\<rparr>))
       = (Inr (), demo_static\<lparr>trace := [Enter, LogException (OtherError ''create failed''),
                                           Delete]\<rparr>)"
  by (simp add: nncp_enter_def eval_defs enter_defs create_fails_def demo_static_def
      demo_policy_def demo_env_def demo_heap_def)

text \<open>
  C10. With teardown disabled \<^verbatim>\<open>__exit__\<close> returns and changes nothing (with teardown
  enabled it is \<^verbatim>\<open>clean_up\<close>). The clean-up after a failure inside the \<^verbatim>\<open>try\<close> of \<^verbatim>\<open>__enter__\<close>
  does not ask for the flag: whatever \<^verbatim>\<open>teardown\<close> is, the object after \<^verbatim>\<open>__enter__\<close> is the
  object after \<^verbatim>\<open>clean_up\<close>, and when that clean-up returns, \<^verbatim>\<open>__enter__\<close> raises the original
  exception and the history ends with the log entry, the calls of the clean-up and
  \<^verbatim>\<open>delete\<close>.
\<close>

theorem teardown_gates_exit_only:
  "(\<not> teardown s \<longrightarrow> nncp_exit env s = (Inr (), s))
   \<and> (teardown s \<longrightarrow> nncp_exit env s = clean_up env s)
   \<and> (enter_setup env s = (Inr (), s1) \<and> enter_try env s1 = (Inl e, s2)
      \<longrightarrow> snd (nncp_enter env s) = snd (clean_up env (log (LogException e) s2)))
   \<and> (enter_setup env s = (Inr (), s1) \<and> enter_try env s1 = (Inl e, s2)
        \<and> clean_up env (log (LogException e) s2) = (Inr (), s3)
      \<longrightarrow> nncp_enter env s = (Inl e, s3)
          \<and> (\<exists>h. trace s3 = trace s2 @ LogException e # h @ [Delete]))"
proof (intro conjI impI)
  assume "\<not> teardown s"
  then show "nncp_exit env s = (Inr (), s)" by (simp add: nncp_exit_def)
next
  assume "teardown s"
  then show "nncp_exit env s = clean_up env s" by (simp add: nncp_exit_def)
next
  assume "enter_setup env s = (Inr (), s1) \<and> enter_try env s1 = (Inl e, s2)"
  then show "snd (nncp_enter env s) = snd (clean_up env (log (LogException e) s2))"
    by (cases "clean_up env (log (LogException e) s2)")
       (auto simp: nncp_enter_def split: sum.splits)
next
  assume a: "enter_setup env s = (Inr (), s1) \<and> enter_try env s1 = (Inl e, s2)
        \<and> clean_up env (log (LogException e) s2) = (Inr (), s3)"
  then show "nncp_enter env s = (Inl e, s3)" by (simp add: nncp_enter_def)
next
  assume a: "enter_setup env s = (Inr (), s1) \<and> enter_try env s1 = (Inl e, s2)
        \<and> clean_up env (log (LogException e) s2) = (Inr (), s3)"
  with clean_up_returns_after_delete[of env "log (LogException e) s2" "()" s3]
  show "\<exists>h. trace s3 = trace s2 @ LogException e # h @ [Delete]"
    by (auto simp: log_def)
qed

lemma failing_entry_keep:
  "\<exists>s1 s2 s3.
     enter_setup failing_env demo_keep = (Inr (), s1)
     \<and> enter_try failing_env s1 = (Inl (NNCPConfigurationFailed ''Reason: FailedToConfigure''), s2)
     \<and> clean_up failing_env
           (log (LogException (NNCPConfigurationFailed ''Reason: FailedToConfigure'')) s2)
         = (Inr (), s3)
     \<and> \<not> teardown s3
     \<and> filter (\<lambda>ev. ev = Delete) (trace s3) = [Delete]"
  by (simp add: eval_defs enter_defs failing_env_def demo_keep_def demo_static_def demo_policy_def
      demo_env_def demo_heap_def)

theorem teardown_gates_exit_only_witness:
  "\<not> teardown demo_keep
   \<and> nncp_exit failing_env demo_keep = (Inr (), demo_keep)
   \<and> (\<exists>s3. nncp_enter failing_env demo_keep
               = (Inl (NNCPConfigurationFailed ''Reason: FailedToConfigure''), s3)
          \<and> \<not> teardown s3
          \<and> filter (\<lambda>ev. ev = Delete) (trace s3) = [Delete]
          \<and> nncp_exit failing_env s3 = (Inr (), s3))"
proof -
  have k: "\<not> teardown demo_keep" by (simp add: demo_keep_def)
  from failing_entry_keep obtain s1 s2 s3 where
    su: "enter_setup failing_env demo_keep = (Inr (), s1)"
    and tr: "enter_try failing_env s1
               = (Inl (NNCPConfigurationFailed ''Reason: FailedToConfigure''), s2)"
    and cl: "clean_up failing_env
               (log (LogException (NNCPConfigurationFailed ''Reason: FailedToConfigure'')) s2)
             = (Inr (), s3)"
    and t3: "\<not> teardown s3"
    and f: "filter (\<lambda>ev. ev = Delete) (trace s3) = [Delete]"
    by (elim exE conjE) (rule that)
  from teardown_gates_exit_only[of demo_keep failing_env] k
  have x0: "nncp_exit failing_env demo_keep = (Inr (), demo_keep)" by simp
  from teardown_gates_exit_only[of s3 failing_env] t3
  have x3: "nncp_exit failing_env s3 = (Inr (), s3)" by simp
  from teardown_gates_exit_only[of demo_keep failing_env s1
      "NNCPConfigurationFailed ''Reason: FailedToConfigure''" s2 s3] su tr cl
  have n: "nncp_enter failing_env demo_keep
          = (Inl (NNCPConfigurationFailed ''Reason: FailedToConfigure''), s3)"
    by simp
  show ?thesis
  proof (intro exI conjI)
    show "\<not> teardown demo_keep" by fact
    show "nncp_exit failing_env demo_keep = (Inr (), demo_keep)" by fact
    show "nncp_enter failing_env demo_keep
          = (Inl (NNCPConfigurationFailed ''Reason: FailedToConfigure''), s3)" by fact
    show "\<not> teardown s3" by fact
    show "filter (\<lambda>ev. ev = Delete) (trace s3) = [Delete]" by fact
    show "nncp_exit failing_env s3 = (Inr (), s3)" by fact
  qed
qed

section \<open>Properties of the DHCP rollback\<close>

text \<open>The entry that the rollback inserts for a port: \<^verbatim>\<open>{"name": port, "ipv4": saved}\<close>.\<close>

definition restore_entry :: "string \<Rightarrow> ipv4 \<Rightarrow> interface" where
  "restore_entry port saved =
     \<lparr>if_name = port, if_type = None, if_state = None, if_mtu = None,
      if_ipv4 = Some saved, if_ipv6 = None\<rparr>"

definition dhcp_changed :: "env \<Rightarrow> nncp \<Rightarrow> string \<Rightarrow> string \<Rightarrow> ipv4 \<Rightarrow> bool" where
  "dhcp_changed env s node port saved =
     (priv_ipv4_dhcp s
      \<and> worker_pods s = Some [Pod node]
      \<and> ipv4_iface_state s = [(node, [(port, saved)])]
      \<and> (\<exists>obs d e.
            (\<forall>h. ext_current_state env h = Inr obs)
            \<and> filter (\<lambda>i. o_name i \<in> set (ports s)) obs
                = [\<lparr>o_name = port, o_ipv4 = Some \<lparr>o_dhcp = Some d, o_enabled = Some e\<rparr>\<rparr>]
            \<and> saved \<noteq> \<lparr>enabled = e, dhcp = d, address = None\<rparr>))"

lemma changed_interfaces_none:
  "filter (\<lambda>i. o_name i \<in> set (ports s)) obs = [] \<Longrightarrow> changed_interfaces s node obs temp = Inr temp"
  by (induction obs arbitrary: temp) (auto split: if_splits)

lemma changed_interfaces_one:
  assumes "ipv4_iface_state s = [(node, [(port, saved)])]"
    and "saved \<noteq> \<lparr>enabled = e, dhcp = d, address = None\<rparr>"
  shows "filter (\<lambda>i. o_name i \<in> set (ports s)) obs
           = [\<lparr>o_name = port, o_ipv4 = Some \<lparr>o_dhcp = Some d, o_enabled = Some e\<rparr>\<rparr>]
         \<Longrightarrow> changed_interfaces s node obs [(node, [])] = Inr [(node, [(port, saved)])]"
proof (induction obs)
  case Nil
  then show ?case by simp
next
  case (Cons i obs)
  show ?case
  proof (cases "o_name i \<in> set (ports s)")
    case False
    with Cons show ?thesis by simp
  next
    case True
    with Cons.prems
    have i: "i = \<lparr>o_name = port, o_ipv4 = Some \<lparr>o_dhcp = Some d, o_enabled = Some e\<rparr>\<rparr>"
      and rest: "filter (\<lambda>i. o_name i \<in> set (ports s)) obs = []"
      by simp_all
    from True i assms changed_interfaces_none[OF rest]
    show ?thesis by (simp add: obs_flags_def)
  qed
qed

lemma absent_bridge_restores:
  assumes "dhcp_changed env s node port saved"
  shows "\<exists>s'. absent_bridge env bridge s = (Inr (), s')
           \<and> dhcp_changed env s' node port saved
           \<and> desired_state s' \<noteq> []
           \<and> heap s' ! last (desired_state s') = restore_entry port saved
           \<and> iface s' = iface s"
proof -
  from assms obtain obs d e where
    dh: "priv_ipv4_dhcp s" and pods: "worker_pods s = Some [Pod node]"
    and st: "ipv4_iface_state s = [(node, [(port, saved)])]"
    and obs: "\<forall>h. ext_current_state env h = Inr obs"
    and f: "filter (\<lambda>i. o_name i \<in> set (ports s)) obs
                = [\<lparr>o_name = port, o_ipv4 = Some \<lparr>o_dhcp = Some d, o_enabled = Some e\<rparr>\<rparr>]"
    and ne: "saved \<noteq> \<lparr>enabled = e, dhcp = d, address = None\<rparr>"
    by (auto simp: dhcp_changed_def)
  define s2 where "s2 = set_interface bridge (mark_absent bridge s)"
  define s3 where "s3 = s2\<lparr>trace := trace s2 @ [GetCurrentState node]\<rparr>"
  define s' where "s' = set_interface (length (heap s3)) (s3\<lparr>heap := heap s3 @ [restore_entry port saved]\<rparr>)"
  have fields2: "priv_ipv4_dhcp s2" "worker_pods s2 = Some [Pod node]"
    "ipv4_iface_state s2 = [(node, [(port, saved)])]" "ports s2 = ports s" "iface s2 = iface s"
    using dh pods st by (simp_all add: s2_def set_interface_def mark_absent_def Let_def)
  have ci: "changed_interfaces s3 node obs [(node, [])] = Inr [(node, [(port, saved)])]"
    by (rule changed_interfaces_one[OF _ ne]) (use fields2 f in \<open>simp_all add: s3_def\<close>)
  have cp: "changed_pods env [Pod node] [] s2 = (Inr [(node, [(port, saved)])], s3)"
    using obs ci by (simp add: call_eq s3_def)
  have ab: "absent_bridge env bridge s = (Inr (), s')"
    using fields2 cp
    by (simp add: absent_bridge_def Let_def s2_def[symmetric] restore_interface_def
        new_interface_def s'_def restore_entry_def)
  have fields': "priv_ipv4_dhcp s'" "worker_pods s' = Some [Pod node]"
    "ipv4_iface_state s' = [(node, [(port, saved)])]" "ports s' = ports s" "iface s' = iface s"
    using fields2 by (simp_all add: s'_def s3_def set_interface_def Let_def)
  then have "dhcp_changed env s' node port saved"
    using obs f ne by (auto simp: dhcp_changed_def)
  moreover have "desired_state s' \<noteq> []" "heap s' ! last (desired_state s') = restore_entry port saved"
    by (simp_all add: s'_def desired_state_set_interface)
  ultimately show ?thesis using ab fields' by blast
qed

lemma absent_loop_restores:
  "dhcp_changed env s node port saved \<Longrightarrow> bridges \<noteq> [] \<Longrightarrow>
   \<exists>s1. for_each (absent_bridge env) bridges s = (Inr (), s1)
     \<and> desired_state s1 \<noteq> []
     \<and> heap s1 ! last (desired_state s1) = restore_entry port saved
     \<and> iface s1 = iface s"
proof (induction bridges arbitrary: s)
  case Nil
  then show ?case by simp
next
  case (Cons b bridges)
  from absent_bridge_restores[OF Cons.prems(1), of b] obtain s' where
    ab: "absent_bridge env b s = (Inr (), s')" and dc: "dhcp_changed env s' node port saved"
    and ds: "desired_state s' \<noteq> []" "heap s' ! last (desired_state s') = restore_entry port saved"
    and i: "iface s' = iface s"
    by blast
  show ?case
  proof (cases "bridges = []")
    case True
    with ab ds i show ?thesis by simp
  next
    case False
    from Cons.IH[OF dc False] i ab show ?thesis by auto
  qed
qed

lemma to_dict_keeps_entry:
  assumes t: "to_dict s = (Inr d, s3)" and a: "iface s = Some a"
    and r: "r \<in> set (desired_state s)" and n: "if_name (heap s ! r) \<noteq> if_name (heap s ! a)"
  shows "heap s ! r \<in> set (spec_desiredState d)"
proof -
  from n have ra: "r \<noteq> a" by auto
  obtain sel where sel: "priv_node_selector s = Some sel"
    using t by (cases "priv_node_selector s") (simp_all add: to_dict_def)
  from t a sel have "to_dict s = (Inr (document sel (remember_iface a (set_interface a (write_protocols a s)))),
      remember_iface a (set_interface a (write_protocols a s)))"
    by (simp add: to_dict_def Let_def)
  with t have s3: "s3 = remember_iface a (set_interface a (write_protocols a s))"
    and d: "d = document sel s3"
    by auto
  have ds: "desired_state s3 =
      filter (\<lambda>i. if_name (heap s ! i) \<noteq> if_name (heap s ! a)) (desired_state s) @ [a]"
    by (simp add: s3 desired_state_set_interface)
  have h: "heap s3 ! r = heap s ! r"
    using ra by (simp add: s3 write_protocols_def Let_def)
  from r n ds have "r \<in> set (desired_state s3)" by simp
  then have "heap s3 ! r \<in> set (spec_desiredState d)"
    by (simp add: d document_def)
  with h show ?thesis by simp
qed

text \<open>
  C4. The scenario, \<open>dhcp_changed\<close>: DHCP is enabled on the policy, there is one worker node,
  the backup table is \<^verbatim>\<open>{node: {port: saved}}\<close>, and the node reports the port (the only one
  of \<^verbatim>\<open>self.ports\<close> it reports) with flags that differ from \<open>saved\<close>; for the claim's input
  \<open>saved\<close> is \<^verbatim>\<open>{dhcp: false, enabled: true}\<close> and the node reports \<^verbatim>\<open>dhcp: true\<close>. Then, for a
  policy with at least one interface in \<^verbatim>\<open>self.ifaces\<close>, the loop of \<^verbatim>\<open>_absent_interface\<close> ends
  without an error, and when \<^verbatim>\<open>apply\<close> is called the last entry of the desired-state list is
  \<^verbatim>\<open>{"name": port, "ipv4": saved}\<close>. If \<^verbatim>\<open>to_dict\<close> then builds the document and the primary
  interface is not itself named like the port, the document that \<^verbatim>\<open>apply\<close> sends holds that
  entry.
\<close>

theorem absent_interface_restores_dhcp:
  assumes "dhcp_changed env s node port saved" and "ifaces s \<noteq> []"
  shows "\<exists>s1. for_each (absent_bridge env) (ifaces s) s = (Inr (), s1)
           \<and> absent_interface env s = nncp_apply env s1
           \<and> desired_state s1 \<noteq> []
           \<and> heap s1 ! last (desired_state s1) = restore_entry port saved
           \<and> (\<forall>d s3 a. to_dict s1 = (Inr d, s3) \<and> iface s1 = Some a
                  \<and> if_name (heap s1 ! a) \<noteq> port
                \<longrightarrow> restore_entry port saved \<in> set (spec_desiredState d))"
proof -
  from absent_loop_restores[OF assms] obtain s1 where
    l: "for_each (absent_bridge env) (ifaces s) s = (Inr (), s1)"
    and ne: "desired_state s1 \<noteq> []"
    and e: "heap s1 ! last (desired_state s1) = restore_entry port saved"
    by blast
  from l have ai: "absent_interface env s = nncp_apply env s1"
    by (simp add: absent_interface_def)
  have "\<forall>d s3 a. to_dict s1 = (Inr d, s3) \<and> iface s1 = Some a \<and> if_name (heap s1 ! a) \<noteq> port
                \<longrightarrow> restore_entry port saved \<in> set (spec_desiredState d)"
  proof (intro allI impI)
    fix d s3 a
    assume h: "to_dict s1 = (Inr d, s3) \<and> iface s1 = Some a \<and> if_name (heap s1 ! a) \<noteq> port"
    from ne have "last (desired_state s1) \<in> set (desired_state s1)" by simp
    moreover from e h have "if_name (heap s1 ! last (desired_state s1)) \<noteq> if_name (heap s1 ! a)"
      by (auto simp: restore_entry_def)
    ultimately have "heap s1 ! last (desired_state s1) \<in> set (spec_desiredState d)"
      using h to_dict_keeps_entry by blast
    with e show "restore_entry port saved \<in> set (spec_desiredState d)" by simp
  qed
  with l ai ne e show ?thesis by blast
qed

lemma dhcp_changed_demo:
  "dhcp_changed dhcp_env demo_dhcp ''node1'' ''port1'' \<lparr>enabled = True, dhcp = False, address = None\<rparr>"
  unfolding dhcp_changed_def
  by (intro conjI exI[of _ "[\<lparr>o_name = ''br1'', o_ipv4 = Some \<lparr>o_dhcp = None, o_enabled = Some False\<rparr>\<rparr>,
                  \<lparr>o_name = ''port1'',
                   o_ipv4 = Some \<lparr>o_dhcp = Some True, o_enabled = Some True\<rparr>\<rparr>]"]
        exI[of _ True])
     (simp_all add: dhcp_env_def demo_dhcp_def demo_policy_def demo_env_def)

lemma absent_interface_demo_dhcp:
  "\<exists>s' d. absent_interface dhcp_env demo_dhcp = (Inr (), s')
     \<and> trace s' = [GetCurrentState ''node1'', Update d]
     \<and> map (\<lambda>x. (if_name x, if_state x, map_option dhcp (if_ipv4 x))) (spec_desiredState d)
         = [(''port1'', None, Some False), (''br1'', Some ''absent'', Some True)]"
  by (simp add: eval_defs obs_flags_def restore_interface_def new_interface_def
      dhcp_env_def demo_dhcp_def demo_policy_def demo_env_def demo_heap_def)

theorem absent_interface_restores_dhcp_witness:
  "dhcp_changed dhcp_env demo_dhcp ''node1'' ''port1'' \<lparr>enabled = True, dhcp = False, address = None\<rparr>
   \<and> ifaces demo_dhcp \<noteq> []
   \<and> (\<exists>s1. for_each (absent_bridge dhcp_env) (ifaces demo_dhcp) demo_dhcp = (Inr (), s1)
          \<and> absent_interface dhcp_env demo_dhcp = nncp_apply dhcp_env s1
          \<and> heap s1 ! last (desired_state s1)
              = restore_entry ''port1'' \<lparr>enabled = True, dhcp = False, address = None\<rparr>)
   \<and> (\<exists>s' d. absent_interface dhcp_env demo_dhcp = (Inr (), s')
          \<and> trace s' = [GetCurrentState ''node1'', Update d]
          \<and> map (\<lambda>x. (if_name x, if_state x, map_option dhcp (if_ipv4 x))) (spec_desiredState d)
              = [(''port1'', None, Some False), (''br1'', Some ''absent'', Some True)])"
proof -
  have i: "ifaces demo_dhcp \<noteq> []" by (simp add: demo_dhcp_def)
  from absent_interface_restores_dhcp[OF dhcp_changed_demo i]
  have "\<exists>s1. for_each (absent_bridge dhcp_env) (ifaces demo_dhcp) demo_dhcp = (Inr (), s1)
          \<and> absent_interface dhcp_env demo_dhcp = nncp_apply dhcp_env s1
          \<and> heap s1 ! last (desired_state s1)
              = restore_entry ''port1'' \<lparr>enabled = True, dhcp = False, address = None\<rparr>"
    by (elim exE conjE) (intro exI conjI, assumption+)
  with dhcp_changed_demo i absent_interface_demo_dhcp show ?thesis by (intro conjI)
qed

end
